theory Spec2Isabelle
  imports Main "HOL-Library.Char_ord" "HOL-Library.List_Lexorder" "HOL-Library.AList"
begin

section \<open>The report store of puppet-summary (db.go)\<close>

text \<open>
  The three tables created by \<^verbatim>\<open>SetupDB\<close>, one record per table, one field per column.
  A table is the list of its rows in insertion order. Integer columns are \<open>int\<close>, text
  columns are \<open>string\<close>; text is compared byte by byte, as SQLite does. The lookups, the
  sweeps and \<^verbatim>\<open>createHost\<close> fail only on a constraint of the schema
  (\<^verbatim>\<open>UNIQUE\<close>); the calls of \<^verbatim>\<open>addDB\<close> and \<^verbatim>\<open>updateHistory\<close> that the engine
  can refuse for a reason of its own are described with the record \<open>faults\<close> below.
  The column \<^verbatim>\<open>yaml_file\<close> holds a path relative to the report prefix; paths are kept
  as lists of path elements (see the filesystem section).
\<close>

type_synonym path = "string list"

record host_row =
  host_id :: int
  host_fqdn :: string
  host_role :: string
  host_branch :: string
  host_build_time :: int
  host_state :: string
  last_seen :: int
  host_runtime :: int
  pinned :: int

record report_row =
  report_id :: int
  rep_host_id :: int
  rep_fqdn :: string
  rep_state :: string
  yaml_file :: path
  rep_runtime :: int
  executed_at :: int
  rep_role :: string
  rep_branch :: string
  rep_build_time :: int
  rep_total :: int
  rep_skipped :: int
  rep_failed :: int
  rep_changed :: int

record history_row =
  hist_id :: int
  date :: string
  failed :: int
  changed :: int
  unchanged :: int

text \<open>
  The store behind the global handle \<^verbatim>\<open>db\<close>: the three tables and, for each
  \<^verbatim>\<open>AUTOINCREMENT\<close> key, the largest key handed out so far. The handle itself is a
  \<open>store option\<close>: \<open>None\<close> is the nil handle of a process that never called SetupDB.
\<close>

record store =
  hosts :: "host_row list"
  reports :: "report_row list"
  history :: "history_row list"
  hosts_seq :: int
  reports_seq :: int
  history_seq :: int

datatype error =
    SetupDBNotCalled
  | UniqueConstraint string
  | NoReportsFor string
  | MustBePOST
  | ParseFailure string
  | FsFailure string
  | EngineFailure string

subsection \<open>Calls that the engine refuses\<close>

text \<open>
  Besides the constraints of the schema, the engine can refuse a call for a reason of its
  own (a locked database file, a lost connection). \<^verbatim>\<open>addDB\<close> tests the error of
  \<^verbatim>\<open>db.Begin\<close> and of its two \<^verbatim>\<open>tx.Prepare\<close> calls, and drops the results of its
  two \<^verbatim>\<open>Exec\<close> calls, of \<^verbatim>\<open>tx.Commit\<close> and of \<^verbatim>\<open>updateHistory\<close>. A run of
  these calls is described by the record below: one flag for each call of \<^verbatim>\<open>addDB\<close>
  from \<^verbatim>\<open>db.Begin\<close> onwards and one for each of the four statements of
  \<^verbatim>\<open>updateHistory\<close>, set when the engine refuses that call. The error of a refused call
  is \<open>EngineFailure\<close> with the name of the call.
\<close>

record faults =
  begin_fails :: bool
  prepare_report_fails :: bool
  exec_report_fails :: bool
  prepare_host_fails :: bool
  exec_host_fails :: bool
  commit_fails :: bool
  history_lookup_fails :: bool
  history_insert_fails :: bool
  history_relookup_fails :: bool
  history_update_fails :: bool

definition no_faults :: faults where
  "no_faults =
     \<lparr>begin_fails = False, prepare_report_fails = False, exec_report_fails = False,
      prepare_host_fails = False, exec_host_fails = False, commit_fails = False,
      history_lookup_fails = False, history_insert_fails = False,
      history_relookup_fails = False, history_update_fails = False\<rparr>"

subsection \<open>Statements\<close>

definition sql_update :: "('r \<Rightarrow> bool) \<Rightarrow> ('r \<Rightarrow> 'r) \<Rightarrow> 'r list \<Rightarrow> 'r list" where
  "sql_update P f rows = map (\<lambda>r. if P r then f r else r) rows"

definition sql_delete :: "('r \<Rightarrow> bool) \<Rightarrow> 'r list \<Rightarrow> 'r list" where
  "sql_delete P rows = filter (\<lambda>r. \<not> P r) rows"

definition sql_select :: "('r \<Rightarrow> bool) \<Rightarrow> 'r list \<Rightarrow> 'r list" where
  "sql_select P rows = filter P rows"

text \<open>
  The key of a freshly inserted row: one more than the largest key that ever existed in
  the table.
\<close>

definition next_key :: "int \<Rightarrow> int list \<Rightarrow> int" where
  "next_key seq keys = fold max keys seq + 1"

subsection \<open>Machine integers\<close>

text \<open>
  \<^verbatim>\<open>time.Now().Unix()\<close> is an int64 and Go's \<^verbatim>\<open>int\<close> is 64 bits wide on the
  platforms the server is built for; arithmetic on them wraps around.
\<close>

definition wrap64 :: "int \<Rightarrow> int" where
  "wrap64 x = (x + 2 ^ 63) mod 2 ^ 64 - 2 ^ 63"

definition in_int64 :: "int \<Rightarrow> bool" where
  "in_int64 x = (- (2 ^ 63) \<le> x \<and> x < 2 ^ 63)"

subsection \<open>Host registry sweeps\<close>

text \<open>
  \<^verbatim>\<open>updateOrphans\<close>: the threshold is the constant \<^verbatim>\<open>3.5 * (24 * 60 * 60)\<close>, which is
  302400 seconds; the statement is
  \<^verbatim>\<open>UPDATE hosts SET state = 'orphaned' WHERE last_seen < ?\<close>.
  The argument \<open>now\<close> is the value of \<^verbatim>\<open>time.Now().Unix()\<close>.
\<close>

definition orphan_threshold :: int where
  "orphan_threshold = 302400"

definition updateOrphans :: "int \<Rightarrow> store option \<Rightarrow> store option" where
  "updateOrphans now db =
     (case db of
        None \<Rightarrow> None
      | Some s \<Rightarrow>
          Some (s\<lparr>hosts :=
            sql_update (\<lambda>h. last_seen h < wrap64 (now - orphan_threshold))
                       (\<lambda>h. h\<lparr>host_state := ''orphaned''\<rparr>) (hosts s)\<rparr>))"

text \<open>
  \<^verbatim>\<open>purgeOrphans(days)\<close>: \<^verbatim>\<open>threshold := days * (24 * 60 * 60)\<close>, then
  \<^verbatim>\<open>DELETE FROM hosts WHERE last_seen < ? AND pinned = 0\<close> with
  \<^verbatim>\<open>time.Now().Unix() - int64(threshold)\<close>.
\<close>

definition purge_cutoff :: "int \<Rightarrow> int \<Rightarrow> int" where
  "purge_cutoff now days = wrap64 (now - wrap64 (days * (24 * 60 * 60)))"

definition purgeOrphans :: "int \<Rightarrow> int \<Rightarrow> store option \<Rightarrow> store option" where
  "purgeOrphans now days db =
     (case db of
        None \<Rightarrow> None
      | Some s \<Rightarrow>
          Some (s\<lparr>hosts :=
            sql_delete (\<lambda>h. last_seen h < purge_cutoff now days \<and> pinned h = 0) (hosts s)\<rparr>))"

subsection \<open>Parsed reports\<close>

text \<open>
  Modelled from the spec: the struct \<^verbatim>\<open>PuppetReport\<close> that \<^verbatim>\<open>ParsePuppetReport\<close>
  returns is declared in a source file that is not at hand. The fields are the ones that
  \<^verbatim>\<open>addDB\<close> and the submission handlers read: the submitting node, the outcome state,
  the run duration, the resource counters, the deployment metadata and the content hash.
\<close>

record PuppetReport =
  Fqdn :: string
  State :: string
  Runtime :: int
  Failed :: int
  Changed :: int
  Total :: int
  Skipped :: int
  Role :: string
  Branch :: string
  BuildTime :: int
  Hash :: string

subsection \<open>Host lookup and creation\<close>

text \<open>
  \<^verbatim>\<open>getHostId\<close>: \<^verbatim>\<open>SELECT host_id FROM hosts WHERE fqdn = ?\<close>, first row;
  \<^verbatim>\<open>sql.ErrNoRows\<close> is turned into the id 0 without an error.
\<close>

definition getHostId :: "string \<Rightarrow> store option \<Rightarrow> error + int" where
  "getHostId fqdn db =
     (case db of
        None \<Rightarrow> Inl SetupDBNotCalled
      | Some s \<Rightarrow>
          (case sql_select (\<lambda>h. host_fqdn h = fqdn) (hosts s) of
             [] \<Rightarrow> Inr 0
           | h # _ \<Rightarrow> Inr (host_id h)))"

text \<open>
  \<^verbatim>\<open>createHost\<close>: the INSERT is refused by \<^verbatim>\<open>UNIQUE(fqdn)\<close> when a row with that
  fqdn exists, and the error is returned with id 0; otherwise the zero-state row is
  appended and the id is read back with \<^verbatim>\<open>getHostId\<close>.
\<close>

definition new_host :: "int \<Rightarrow> string \<Rightarrow> host_row" where
  "new_host k fqdn =
     \<lparr>host_id = k, host_fqdn = fqdn, host_role = [], host_branch = [],
      host_build_time = 0, host_state = [], last_seen = 0, host_runtime = 0, pinned = 0\<rparr>"

definition insert_host :: "string \<Rightarrow> store \<Rightarrow> store" where
  "insert_host fqdn s =
     (let k = next_key (hosts_seq s) (map host_id (hosts s))
      in s\<lparr>hosts := hosts s @ [new_host k fqdn], hosts_seq := k\<rparr>)"

definition createHost :: "string \<Rightarrow> store option \<Rightarrow> (error + int) \<times> store option" where
  "createHost fqdn db =
     (case db of
        None \<Rightarrow> (Inl SetupDBNotCalled, db)
      | Some s \<Rightarrow>
          if fqdn \<in> set (map host_fqdn (hosts s))
          then (Inl (UniqueConstraint ''hosts.fqdn''), db)
          else (getHostId fqdn (Some (insert_host fqdn s)), Some (insert_host fqdn s)))"

subsection \<open>History buckets\<close>

text \<open>
  \<^verbatim>\<open>updateHistory(date, state)\<close>. The date key is computed inside the database engine
  (\<^verbatim>\<open>strftime('%Y/%m/%d', DATE(?, 'unixepoch'))\<close> or
  \<^verbatim>\<open>from_unixtime(?, '%Y/%m/%d')\<close>); that rendering is the parameter \<open>dateOf\<close>.
  The id found by the lookup stays 0 when no row is found, also after the insert.
\<close>

definition history_lookup :: "string \<Rightarrow> store \<Rightarrow> int option" where
  "history_lookup d s =
     (case sql_select (\<lambda>r. date r = d) (history s) of
        [] \<Rightarrow> None
      | r # _ \<Rightarrow> Some (hist_id r))"

definition insert_history :: "string \<Rightarrow> store \<Rightarrow> store" where
  "insert_history d s =
     (if d \<in> set (map date (history s)) then s
      else
        (let k = next_key (history_seq s) (map hist_id (history s))
         in s\<lparr>history := history s @ [\<lparr>hist_id = k, date = d, failed = 0, changed = 0, unchanged = 0\<rparr>],
               history_seq := k\<rparr>))"

definition state_increments :: "string \<Rightarrow> int \<times> int \<times> int" where
  "state_increments st =
     (if st = ''failed'' then (1, 0, 0)
      else if st = ''changed'' then (0, 1, 0)
      else if st = ''unchanged'' then (0, 0, 1)
      else (0, 0, 0))"

definition add_counters :: "int \<times> int \<times> int \<Rightarrow> history_row \<Rightarrow> history_row" where
  "add_counters inc r =
     (case inc of (f, c, u) \<Rightarrow>
        r\<lparr>failed := failed r + f, changed := changed r + c, unchanged := unchanged r + u\<rparr>)"

definition update_history :: "int \<Rightarrow> string \<Rightarrow> store \<Rightarrow> store" where
  "update_history i st s =
     s\<lparr>history := sql_update (\<lambda>r. hist_id r = i) (add_counters (state_increments st)) (history s)\<rparr>"

definition updateHistory ::
  "(int \<Rightarrow> string) \<Rightarrow> int \<Rightarrow> string \<Rightarrow> store option \<Rightarrow> error option \<times> store option" where
  "updateHistory dateOf epoch st db =
     (case db of
        None \<Rightarrow> (Some SetupDBNotCalled, db)
      | Some s \<Rightarrow>
          (case history_lookup (dateOf epoch) s of
             Some i \<Rightarrow> (None, Some (update_history i st s))
           | None \<Rightarrow>
               (let s1 = insert_history (dateOf epoch) s;
                    i = (case history_lookup (dateOf epoch) s1 of None \<Rightarrow> 0 | Some j \<Rightarrow> j)
                in (None, Some (update_history i st s1)))))"

text \<open>
  \<open>updateHistory\<close> above is the run in which the engine answers every statement. The
  function with the refusals of a run: when the first lookup fails with an error that is
  not \<^verbatim>\<open>sql.ErrNoRows\<close> the insert is skipped and the id stays 0; a refused insert is
  only printed; a refused second lookup leaves the id 0; the error of the UPDATE is the
  only one that is returned.
\<close>

definition history_finish ::
  "faults \<Rightarrow> int \<Rightarrow> string \<Rightarrow> store \<Rightarrow> error option \<times> store option" where
  "history_finish fl i st s =
     (if history_update_fails fl then (Some (EngineFailure ''update history''), Some s)
      else (None, Some (update_history i st s)))"

definition updateHistory_faulty ::
  "faults \<Rightarrow> (int \<Rightarrow> string) \<Rightarrow> int \<Rightarrow> string \<Rightarrow> store option
     \<Rightarrow> error option \<times> store option" where
  "updateHistory_faulty fl dateOf epoch st db =
     (case db of
        None \<Rightarrow> (Some SetupDBNotCalled, db)
      | Some s \<Rightarrow>
          if history_lookup_fails fl then history_finish fl 0 st s
          else
            (case history_lookup (dateOf epoch) s of
               Some i \<Rightarrow> history_finish fl i st s
             | None \<Rightarrow>
                 (let s1 = (if history_insert_fails fl then s
                            else insert_history (dateOf epoch) s);
                      i = (if history_relookup_fails fl then 0
                           else (case history_lookup (dateOf epoch) s1 of
                                   None \<Rightarrow> 0 | Some j \<Rightarrow> j))
                  in history_finish fl i st s1)))"

text \<open>
  Every statement of \<^verbatim>\<open>updateHistory\<close> runs on the global handle outside any
  transaction, so each one is committed on its own. The list below holds the states of the
  store that the function commits, in order; a refused statement commits nothing.
\<close>

definition history_finish_commits :: "faults \<Rightarrow> int \<Rightarrow> string \<Rightarrow> store \<Rightarrow> store option list" where
  "history_finish_commits fl i st s =
     (if history_update_fails fl then [] else [Some (update_history i st s)])"

definition updateHistory_commits ::
  "faults \<Rightarrow> (int \<Rightarrow> string) \<Rightarrow> int \<Rightarrow> string \<Rightarrow> store option \<Rightarrow> store option list" where
  "updateHistory_commits fl dateOf epoch st db =
     (case db of
        None \<Rightarrow> []
      | Some s \<Rightarrow>
          if history_lookup_fails fl then history_finish_commits fl 0 st s
          else
            (case history_lookup (dateOf epoch) s of
               Some i \<Rightarrow> history_finish_commits fl i st s
             | None \<Rightarrow>
                 (let s1 = (if history_insert_fails fl then s
                            else insert_history (dateOf epoch) s);
                      i = (if history_relookup_fails fl then 0
                           else (case history_lookup (dateOf epoch) s1 of
                                   None \<Rightarrow> 0 | Some j \<Rightarrow> j))
                  in (if history_insert_fails fl then [] else [Some s1])
                     @ history_finish_commits fl i st s1)))"

text \<open>
  \<^verbatim>\<open>pruneHistory\<close>: the retention is the constant 14. The ids of the
  \<^verbatim>\<open>count - 14\<close> first rows in date order are collected and deleted with
  \<^verbatim>\<open>DELETE FROM history WHERE id IN (...)\<close>. The order among rows of equal date
  is the one of a stable sort here; no property below depends on it.
\<close>

definition pruneHistory :: "store option \<Rightarrow> store option" where
  "pruneHistory db =
     (case db of
        None \<Rightarrow> None
      | Some s \<Rightarrow>
          (let count = int (length (history s)) in
           if count \<le> 14 then db
           else
             (let purge = count - 14;
                  ids = map hist_id (take (nat purge) (sort_key date (history s)))
              in Some (s\<lparr>history := sql_delete (\<lambda>r. hist_id r \<in> set ids) (history s)\<rparr>))))"

subsection \<open>Recording a report\<close>

text \<open>
  \<^verbatim>\<open>addDB(data, path)\<close>. The INSERT into reports and the UPDATE of hosts are prepared
  and executed on one transaction and become visible with \<^verbatim>\<open>tx.Commit\<close>;
  \<open>addDB_tx\<close> is the effect of that commit on the store: nothing when the commit is
  refused, otherwise the effect of each of the two statements that was executed. The
  source drops the results of both \<^verbatim>\<open>Exec\<close> calls and of the commit. The argument
  \<open>now\<close> is \<^verbatim>\<open>time.Now().Unix()\<close>.
\<close>

definition new_report :: "int \<Rightarrow> int \<Rightarrow> PuppetReport \<Rightarrow> path \<Rightarrow> int \<Rightarrow> report_row" where
  "new_report k now data p hid =
     \<lparr>report_id = k, rep_host_id = hid, rep_fqdn = Fqdn data, rep_state = State data,
      yaml_file = p, rep_runtime = Runtime data, executed_at = now, rep_role = Role data,
      rep_branch = Branch data, rep_build_time = BuildTime data, rep_total = Total data,
      rep_skipped = Skipped data, rep_failed = Failed data, rep_changed = Changed data\<rparr>"

definition host_snapshot :: "int \<Rightarrow> PuppetReport \<Rightarrow> host_row \<Rightarrow> host_row" where
  "host_snapshot now data h =
     h\<lparr>last_seen := now, host_state := State data, host_runtime := Runtime data,
       host_role := Role data, host_branch := Branch data, host_build_time := BuildTime data\<rparr>"

definition insert_report :: "int \<Rightarrow> PuppetReport \<Rightarrow> path \<Rightarrow> int \<Rightarrow> store \<Rightarrow> store" where
  "insert_report now data p hid s =
     (let k = next_key (reports_seq s) (map report_id (reports s))
      in s\<lparr>reports := reports s @ [new_report k now data p hid], reports_seq := k\<rparr>)"

definition update_host :: "int \<Rightarrow> PuppetReport \<Rightarrow> int \<Rightarrow> store \<Rightarrow> store" where
  "update_host now data hid s =
     s\<lparr>hosts := sql_update (\<lambda>h. host_id h = hid) (host_snapshot now data) (hosts s)\<rparr>"

definition addDB_tx :: "faults \<Rightarrow> int \<Rightarrow> PuppetReport \<Rightarrow> path \<Rightarrow> int \<Rightarrow> store \<Rightarrow> store" where
  "addDB_tx fl now data p hid s =
     (if commit_fails fl then s
      else
        (let s1 = (if exec_report_fails fl then s else insert_report now data p hid s)
         in if exec_host_fails fl then s1 else update_host now data hid s1))"

text \<open>
  \<open>addDB_from_lookup\<close> is the body of \<^verbatim>\<open>addDB\<close> from the test \<^verbatim>\<open>host_id == 0\<close>
  onwards, given the id that \<^verbatim>\<open>getHostId\<close> returned. The errors of \<^verbatim>\<open>createHost\<close>,
  \<^verbatim>\<open>db.Begin\<close> and the two \<^verbatim>\<open>tx.Prepare\<close> calls are returned; the last three come
  after the statement of \<^verbatim>\<open>createHost\<close> was committed, and a transaction that was
  begun is then left without commit, so nothing of it reaches the store. The result of
  \<^verbatim>\<open>updateHistory\<close> is dropped, and \<^verbatim>\<open>addDB\<close> returns nil after it.
\<close>

definition addDB_from_lookup ::
  "faults \<Rightarrow> (int \<Rightarrow> string) \<Rightarrow> int \<Rightarrow> PuppetReport \<Rightarrow> path \<Rightarrow> int \<Rightarrow> store option
     \<Rightarrow> error option \<times> store option" where
  "addDB_from_lookup fl dateOf now data p hid0 db =
     (case (if hid0 = 0 then createHost (Fqdn data) db else (Inr hid0, db)) of
        (Inl e, db1) \<Rightarrow> (Some e, db1)
      | (Inr hid, db1) \<Rightarrow>
          if begin_fails fl then (Some (EngineFailure ''begin''), db1)
          else if prepare_report_fails fl then (Some (EngineFailure ''prepare''), db1)
          else if prepare_host_fails fl then (Some (EngineFailure ''prepare''), db1)
          else (None, snd (updateHistory_faulty fl dateOf now (State data)
                             (map_option (addDB_tx fl now data p hid) db1))))"

definition addDB ::
  "faults \<Rightarrow> (int \<Rightarrow> string) \<Rightarrow> int \<Rightarrow> PuppetReport \<Rightarrow> path \<Rightarrow> store option
     \<Rightarrow> error option \<times> store option" where
  "addDB fl dateOf now data p db =
     (case db of
        None \<Rightarrow> (Some SetupDBNotCalled, db)
      | Some _ \<Rightarrow>
          (case getHostId (Fqdn data) db of
             Inl e \<Rightarrow> (Some e, db)
           | Inr hid0 \<Rightarrow> addDB_from_lookup fl dateOf now data p hid0 db))"

text \<open>
  The states of the store that one call of \<^verbatim>\<open>addDB\<close> commits, in order, after the
  state it starts from: the host row created by \<^verbatim>\<open>createHost\<close> (its own statement),
  the commit of the transaction, and the statements of \<^verbatim>\<open>updateHistory\<close>. A reader
  of the store can see each of them. A refused \<^verbatim>\<open>db.Begin\<close> or \<^verbatim>\<open>tx.Prepare\<close> ends
  the list, and a refused commit adds no state.
\<close>

definition addDB_commits ::
  "faults \<Rightarrow> (int \<Rightarrow> string) \<Rightarrow> int \<Rightarrow> PuppetReport \<Rightarrow> path \<Rightarrow> store option
     \<Rightarrow> store option list" where
  "addDB_commits fl dateOf now data p db =
     (case db of
        None \<Rightarrow> [db]
      | Some _ \<Rightarrow>
          (case getHostId (Fqdn data) db of
             Inl e \<Rightarrow> [db]
           | Inr hid0 \<Rightarrow>
               (case (if hid0 = 0 then createHost (Fqdn data) db else (Inr hid0, db)) of
                  (Inl e, db1) \<Rightarrow> [db]
                | (Inr hid, db1) \<Rightarrow>
                    [db] @ (if hid0 = 0 then [db1] else [])
                    @ (if begin_fails fl \<or> prepare_report_fails fl \<or> prepare_host_fails fl
                       then []
                       else
                         (if commit_fails fl then []
                          else [map_option (addDB_tx fl now data p hid) db1])
                         @ updateHistory_commits fl dateOf now (State data)
                             (map_option (addDB_tx fl now data p hid) db1)))))"

text \<open>
  The lookup and the create of \<^verbatim>\<open>addDB\<close> are two statements on the shared store, and
  another workflow can commit between them. \<open>addDB_raced\<close> is \<^verbatim>\<open>addDB\<close> with the
  effect \<open>other\<close> of such a workflow applied to the store after the lookup; with the
  identity for \<open>other\<close> it is \<open>addDB\<close> itself.
\<close>

definition addDB_raced ::
  "faults \<Rightarrow> (int \<Rightarrow> string) \<Rightarrow> int \<Rightarrow> PuppetReport \<Rightarrow> path \<Rightarrow> (store option \<Rightarrow> store option)
     \<Rightarrow> store option \<Rightarrow> error option \<times> store option" where
  "addDB_raced fl dateOf now data p other db =
     (case db of
        None \<Rightarrow> (Some SetupDBNotCalled, db)
      | Some _ \<Rightarrow>
          (case getHostId (Fqdn data) db of
             Inl e \<Rightarrow> (Some e, db)
           | Inr hid0 \<Rightarrow> addDB_from_lookup fl dateOf now data p hid0 (other db)))"

subsection \<open>Listing the reports of a host\<close>

text \<open>
  Decimal rendering of an integer column scanned into a Go string.
\<close>

definition digit_char :: "nat \<Rightarrow> char" where
  "digit_char n = ''0123456789'' ! n"

function nat_digits :: "nat \<Rightarrow> string" where
  "nat_digits n = (if n < 10 then [digit_char n] else nat_digits (n div 10) @ [digit_char (n mod 10)])"
  by pat_completeness auto
termination
  by (relation "measure id") auto

declare nat_digits.simps [simp del]

definition itoa :: "int \<Rightarrow> string" where
  "itoa i = (if i < 0 then CHR ''-'' # nat_digits (nat (- i)) else nat_digits (nat i))"

record PuppetReportSummary =
  sum_ID :: string
  sum_Fqdn :: string
  sum_State :: string
  sum_At :: string
  sum_Ago :: string
  sum_Runtime :: string
  sum_Branch :: string
  sum_Role :: string
  sum_BuiltAt :: string
  sum_BuiltAgo :: string
  sum_Failed :: int
  sum_Changed :: int
  sum_Total :: int
  sum_YamlFile :: path

text \<open>
  The query of \<^verbatim>\<open>getReports\<close>:
  \<^verbatim>\<open>SELECT ... FROM reports WHERE fqdn=? ORDER by executed_at DESC LIMIT 50\<close>.
  The order among rows of equal timestamp is the one of a stable sort here; no property
  below depends on it.
\<close>

definition select_reports :: "string \<Rightarrow> store \<Rightarrow> report_row list" where
  "select_reports fqdn s =
     take 50 (sort_key (\<lambda>r. - executed_at r) (sql_select (\<lambda>r. rep_fqdn r = fqdn) (reports s)))"

text \<open>
  One row of the result turned into a \<^verbatim>\<open>PuppetReportSummary\<close>. The helper
  \<^verbatim>\<open>timeRelative\<close> is declared in a source file that is not at hand and is a parameter,
  as is \<open>formatUnix\<close>, which stands for
  \<^verbatim>\<open>time.Unix(i, 0).Format("2006-01-02 15:04:05")\<close> applied to the integer that
  \<^verbatim>\<open>strconv.ParseInt\<close> reads back from the scanned column.
\<close>

definition summarise ::
  "(string \<Rightarrow> string) \<Rightarrow> (int \<Rightarrow> string) \<Rightarrow> report_row \<Rightarrow> PuppetReportSummary" where
  "summarise timeRelative formatUnix r =
     \<lparr>sum_ID = itoa (report_id r),
      sum_Fqdn = rep_fqdn r,
      sum_State = rep_state r,
      sum_At = formatUnix (executed_at r),
      sum_Ago = timeRelative (itoa (executed_at r)),
      sum_Runtime = itoa (rep_runtime r),
      sum_Branch = rep_branch r,
      sum_Role = rep_role r,
      sum_BuiltAt = (if itoa (rep_build_time r) = ''0'' then ''-'' else formatUnix (rep_build_time r)),
      sum_BuiltAgo = (if itoa (rep_build_time r) = ''0'' then ''-''
                      else timeRelative (itoa (rep_build_time r))),
      sum_Failed = rep_failed r,
      sum_Changed = rep_changed r,
      sum_Total = rep_total r,
      sum_YamlFile = yaml_file r\<rparr>"

definition getReports ::
  "(string \<Rightarrow> string) \<Rightarrow> (int \<Rightarrow> string) \<Rightarrow> string \<Rightarrow> store option
     \<Rightarrow> error + PuppetReportSummary list" where
  "getReports timeRelative formatUnix fqdn db =
     (case db of
        None \<Rightarrow> Inl SetupDBNotCalled
      | Some s \<Rightarrow>
          (let NodeList = map (summarise timeRelative formatUnix) (select_reports fqdn s)
           in if length NodeList < 1 then Inl (NoReportsFor fqdn) else Inr NodeList))"

section \<open>The filesystem and the submission handlers (cmd_serve.go)\<close>

subsection \<open>Files and directories\<close>

text \<open>
  The part of the filesystem that the handlers touch: an association list from paths to
  nodes. A path is the list of its names from the root; the empty path is the root, which
  is always a directory. An operation fails only for the reasons written here (a missing
  node, a file where a directory is needed, a directory where a file is needed, a
  directory that is not empty); permissions and device errors are left out.
\<close>

datatype node = File string | Dir

type_synonym fs = "(path \<times> node) list"

text \<open>
  \<^verbatim>\<open>filepath.Join\<close> of a path and one more element. An empty element is ignored, as
  \<^verbatim>\<open>Join\<close> does; an element is taken as one name, without separators or dots to clean.
\<close>

definition Join :: "path \<Rightarrow> string \<Rightarrow> path" where
  "Join p e = (if e = [] then p else p @ [e])"

text \<open>
  \<^verbatim>\<open>os.Stat\<close> resolves a name from the root, one element after the other. It returns the
  node it arrives at, the error \<^verbatim>\<open>ENOENT\<close> when an element is missing, and the error
  \<^verbatim>\<open>ENOTDIR\<close> when it has to go through a file. \<open>walk f d xs\<close> resolves the
  elements \<open>xs\<close> from the path \<open>d\<close> already reached.
\<close>

datatype stat_result = StatOk node | ENOENT | ENOTDIR

definition node_at :: "fs \<Rightarrow> path \<Rightarrow> node option" where
  "node_at f p = (if p = [] then Some Dir else map_of f p)"

fun walk :: "fs \<Rightarrow> path \<Rightarrow> path \<Rightarrow> stat_result" where
  "walk f d [] = (case node_at f d of None \<Rightarrow> ENOENT | Some n \<Rightarrow> StatOk n)"
| "walk f d (x # xs) =
     (case node_at f d of
        None \<Rightarrow> ENOENT
      | Some (File _) \<Rightarrow> ENOTDIR
      | Some Dir \<Rightarrow> walk f (d @ [x]) xs)"

definition Stat :: "fs \<Rightarrow> path \<Rightarrow> stat_result" where
  "Stat f name = walk f [] name"

definition is_dir :: "fs \<Rightarrow> path \<Rightarrow> bool" where
  "is_dir f p = (Stat f p = StatOk Dir)"

text \<open>
  \<^verbatim>\<open>Exists\<close> is \<^verbatim>\<open>!os.IsNotExist(err)\<close> on the error of \<^verbatim>\<open>os.Stat\<close>: true when the
  name resolves, and also when \<^verbatim>\<open>os.Stat\<close> fails with an error other than
  \<^verbatim>\<open>ENOENT\<close>.
\<close>

definition Exists :: "fs \<Rightarrow> path \<Rightarrow> bool" where
  "Exists f name = (Stat f name \<noteq> ENOENT)"

text \<open>
  \<^verbatim>\<open>os.MkdirAll\<close> walks the ancestors of the path from the root: a directory that is
  there is kept, a missing one is created, and a file in the way is an error that leaves
  the directories created so far.
\<close>

fun mkdirs :: "fs \<Rightarrow> path list \<Rightarrow> bool \<times> fs" where
  "mkdirs f [] = (True, f)"
| "mkdirs f (q # qs) =
     (case map_of f q of
        Some (File _) \<Rightarrow> (False, f)
      | Some Dir \<Rightarrow> mkdirs f qs
      | None \<Rightarrow> mkdirs (f @ [(q, Dir)]) qs)"

definition ancestors :: "path \<Rightarrow> path list" where
  "ancestors p = map (\<lambda>n. take n p) [1..<Suc (length p)]"

definition MkdirAll :: "fs \<Rightarrow> path \<Rightarrow> bool \<times> fs" where
  "MkdirAll f p = mkdirs f (ancestors p)"

text \<open>
  \<^verbatim>\<open>ioutil.WriteFile\<close> creates or truncates the file; it fails on a directory and when
  the parent is not a directory.
\<close>

definition WriteFile :: "fs \<Rightarrow> path \<Rightarrow> string \<Rightarrow> fs option" where
  "WriteFile f p content =
     (if is_dir f p \<or> \<not> is_dir f (butlast p) then None
      else Some (AList.update p (File content) f))"

definition ReadFile :: "fs \<Rightarrow> path \<Rightarrow> string option" where
  "ReadFile f p = (case Stat f p of StatOk (File content) \<Rightarrow> Some content | _ \<Rightarrow> None)"

text \<open>\<^verbatim>\<open>os.Remove\<close> removes a file or an empty directory, never the root.\<close>

definition has_child :: "fs \<Rightarrow> path \<Rightarrow> bool" where
  "has_child f p = list_ex (\<lambda>e. fst e \<noteq> [] \<and> butlast (fst e) = p) f"

definition Remove :: "fs \<Rightarrow> path \<Rightarrow> fs option" where
  "Remove f p =
     (case Stat f p of
        StatOk (File _) \<Rightarrow> Some (AList.delete p f)
      | StatOk Dir \<Rightarrow> if p = [] \<or> has_child f p then None else Some (AList.delete p f)
      | _ \<Rightarrow> None)"

subsection \<open>Synchronous submission\<close>

text \<open>
  The state that a handler works on: the filesystem and the global database handle.
\<close>

record world =
  w_files :: fs
  w_db :: "store option"

datatype response = HttpError nat error | HttpBody string

text \<open>
  \<^verbatim>\<open>ReportSubmissionHandler\<close>. The parser \<^verbatim>\<open>ParsePuppetReport\<close> is declared in a
  source file that is not at hand and is the parameter \<open>parse\<close> (\<open>Inl\<close> is its error);
  \<open>prefix\<close> is the global \<^verbatim>\<open>ReportPrefix\<close>, \<open>now\<close> the clock read by
  \<^verbatim>\<open>addDB\<close>, \<open>fl\<close> the calls that the engine refuses during \<^verbatim>\<open>addDB\<close>,
  \<open>method\<close> and \<open>content\<close> the method and the body of the request.
  The handler drops the result of \<^verbatim>\<open>addDB\<close> and answers with the host body whatever
  it was. The status of every error is \<^verbatim>\<open>http.StatusInternalServerError\<close>.
\<close>

definition duplicate_body :: string where
  "duplicate_body = ''Ignoring duplicate submission''"

definition host_body :: "string \<Rightarrow> string" where
  "host_body fqdn = [CHR ''{'', CHR 0x22] @ ''host'' @ [CHR 0x22, CHR '':'', CHR 0x22] @ fqdn
                    @ [CHR 0x22, CHR ''}'']"

definition ensure_dir :: "fs \<Rightarrow> path \<Rightarrow> bool \<times> fs" where
  "ensure_dir f dir = (if \<not> Exists f dir then MkdirAll f dir else (True, f))"

definition ReportSubmissionHandler ::
  "faults \<Rightarrow> (string \<Rightarrow> string + PuppetReport) \<Rightarrow> path \<Rightarrow> (int \<Rightarrow> string) \<Rightarrow> int \<Rightarrow> string
     \<Rightarrow> string \<Rightarrow> world \<Rightarrow> response \<times> world" where
  "ReportSubmissionHandler fl parse prefix dateOf now method content w =
     (if method \<noteq> ''POST'' then (HttpError 500 MustBePOST, w)
      else
        (case parse content of
           Inl msg \<Rightarrow> (HttpError 500 (ParseFailure msg), w)
         | Inr report \<Rightarrow>
             (let dir = Join prefix (Fqdn report) in
              case ensure_dir (w_files w) dir of
                (False, f1) \<Rightarrow> (HttpError 500 (FsFailure ''mkdir''), w\<lparr>w_files := f1\<rparr>)
              | (True, f1) \<Rightarrow>
                  (let path = Join dir (Hash report) in
                   if Exists f1 path then (HttpBody duplicate_body, w\<lparr>w_files := f1\<rparr>)
                   else
                     (case WriteFile f1 path content of
                        None \<Rightarrow> (HttpError 500 (FsFailure ''write''), w\<lparr>w_files := f1\<rparr>)
                      | Some f2 \<Rightarrow>
                          (let relativePath = Join (Join [] (Fqdn report)) (Hash report)
                           in (HttpBody (host_body (Fqdn report)),
                               \<lparr>w_files = f2,
                                w_db = snd (addDB fl dateOf now report relativePath (w_db w))\<rparr>)))))))"

subsection \<open>Asynchronous submission\<close>

text \<open>
  \<^verbatim>\<open>AsyncReportSubmissionSaver\<close> is what a worker runs for one token. The staged file
  is \<^verbatim>\<open>/tmp/<uuid>\<close>. The function returns nothing; the model returns the message it
  prints (empty when it prints none) and the new state. \<^verbatim>\<open>os.Remove\<close> is reached on
  the last path only.
\<close>

definition staged_path :: "string \<Rightarrow> path" where
  "staged_path uuid = Join [''tmp''] uuid"

definition AsyncReportSubmissionSaver ::
  "faults \<Rightarrow> (string \<Rightarrow> string + PuppetReport) \<Rightarrow> path \<Rightarrow> (int \<Rightarrow> string) \<Rightarrow> int \<Rightarrow> string
     \<Rightarrow> world \<Rightarrow> string \<times> world" where
  "AsyncReportSubmissionSaver fl parse prefix dateOf now uuid w =
     (case ReadFile (w_files w) (staged_path uuid) of
        None \<Rightarrow> (''Failed to read temp file'', w)
      | Some content \<Rightarrow>
          (case parse content of
             Inl msg \<Rightarrow> (''Failed to parse Yaml'', w)
           | Inr report \<Rightarrow>
               (let dir = Join prefix (Fqdn report) in
                case ensure_dir (w_files w) dir of
                  (False, f1) \<Rightarrow> (''Failed to create host directory'', w\<lparr>w_files := f1\<rparr>)
                | (True, f1) \<Rightarrow>
                    (let path = Join dir (Hash report) in
                     if Exists f1 path then (''Ignoring duplicate submission'', w\<lparr>w_files := f1\<rparr>)
                     else
                       (case WriteFile f1 path content of
                          None \<Rightarrow> (''Error saving file'', w\<lparr>w_files := f1\<rparr>)
                        | Some f2 \<Rightarrow>
                            (let relativePath = Join (Join [] (Fqdn report)) (Hash report);
                                 db2 = snd (addDB fl dateOf now report relativePath (w_db w))
                             in case Remove f2 (staged_path uuid) of
                                  None \<Rightarrow> (''Error deleteing file: '' @ uuid,
                                            \<lparr>w_files = f2, w_db = db2\<rparr>)
                                | Some f3 \<Rightarrow> ([], \<lparr>w_files = f3, w_db = db2\<rparr>)))))))"

text \<open>
  \<^verbatim>\<open>AsyncReportSubmissionWorker\<close> takes the tokens of its channel one after the other;
  each token comes with the clock value of its run.
\<close>

fun AsyncReportSubmissionWorker ::
  "faults \<Rightarrow> (string \<Rightarrow> string + PuppetReport) \<Rightarrow> path \<Rightarrow> (int \<Rightarrow> string)
     \<Rightarrow> (int \<times> string) list \<Rightarrow> world \<Rightarrow> world" where
  "AsyncReportSubmissionWorker fl parse prefix dateOf [] w = w"
| "AsyncReportSubmissionWorker fl parse prefix dateOf ((now, j) # jobs) w =
     AsyncReportSubmissionWorker fl parse prefix dateOf jobs
       (snd (AsyncReportSubmissionSaver fl parse prefix dateOf now j w))"

section \<open>Notions used by the properties\<close>

text \<open>
  A history bucket after an operation compared with the same bucket before it: same key,
  same date, and no counter smaller than it was.
\<close>

definition bucket_grows :: "history_row \<Rightarrow> history_row \<Rightarrow> bool" where
  "bucket_grows r r' =
     (hist_id r' = hist_id r \<and> date r' = date r \<and> failed r \<le> failed r'
      \<and> changed r \<le> changed r' \<and> unchanged r \<le> unchanged r')"

text \<open>
  A host row carries the snapshot of a report recorded at a given clock value.
\<close>

definition snapshot_of :: "int \<Rightarrow> PuppetReport \<Rightarrow> host_row \<Rightarrow> bool" where
  "snapshot_of now data h =
     (last_seen h = now \<and> host_state h = State data \<and> host_runtime h = Runtime data
      \<and> host_role h = Role data \<and> host_branch h = Branch data
      \<and> host_build_time h = BuildTime data)"

text \<open>
  A history bucket that counted one report of a given state, and a history table in which
  the first bucket of a given date counted one such report. These two follow the words of
  the specification, not the statements of \<^verbatim>\<open>updateHistory\<close>.
\<close>

definition count_state :: "string \<Rightarrow> history_row \<Rightarrow> history_row" where
  "count_state st r =
     r\<lparr>failed := failed r + (if st = ''failed'' then 1 else 0),
       changed := changed r + (if st = ''changed'' then 1 else 0),
       unchanged := unchanged r + (if st = ''unchanged'' then 1 else 0)\<rparr>"

fun count_first :: "string \<Rightarrow> string \<Rightarrow> history_row list \<Rightarrow> history_row list" where
  "count_first d st [] = []"
| "count_first d st (r # rs) =
     (if date r = d then count_state st r # rs else r # count_first d st rs)"

section \<open>Example data\<close>

text \<open>Concrete rows and stores on which the properties below are evaluated.\<close>

definition empty_store :: store where
  "empty_store =
     \<lparr>hosts = [], reports = [], history = [], hosts_seq = 0, reports_seq = 0, history_seq = 0\<rparr>"

definition ex_host :: "int \<Rightarrow> string \<Rightarrow> string \<Rightarrow> int \<Rightarrow> int \<Rightarrow> host_row" where
  "ex_host k f st seen pin =
     \<lparr>host_id = k, host_fqdn = f, host_role = ''web'', host_branch = ''main'',
      host_build_time = 0, host_state = st, last_seen = seen, host_runtime = 12, pinned = pin\<rparr>"

definition ex_report :: "int \<Rightarrow> int \<Rightarrow> string \<Rightarrow> string \<Rightarrow> string \<Rightarrow> int \<Rightarrow> report_row" where
  "ex_report k hid f st h t =
     \<lparr>report_id = k, rep_host_id = hid, rep_fqdn = f, rep_state = st, yaml_file = [f, h],
      rep_runtime = 12, executed_at = t, rep_role = ''web'', rep_branch = ''main'',
      rep_build_time = 0, rep_total = 10, rep_skipped = 0, rep_failed = 0, rep_changed = 1\<rparr>"

text \<open>
  Four hosts seen at the clock value 1000000: two around the orphan boundary
  \<open>1000000 - 302400 = 697600\<close>, and two last seen at second 5, one of them pinned.
\<close>

definition sweep_store :: store where
  "sweep_store =
     \<lparr>hosts = [ex_host 1 ''web01'' ''changed'' 697599 0,
               ex_host 2 ''web02'' ''failed'' 697601 0,
               ex_host 3 ''db01'' ''orphaned'' 5 1,
               ex_host 4 ''db02'' ''changed'' 5 0],
      reports = [ex_report 1 4 ''db02'' ''changed'' ''h1'' 5],
      history = [], hosts_seq = 4, reports_seq = 1, history_seq = 0\<rparr>"

text \<open>
  A rendering of the date key that tells the first day of the epoch from the later ones,
  and a history table with one bucket for that first day.
\<close>

definition ex_dateOf :: "int \<Rightarrow> string" where
  "ex_dateOf e = (if e < 86400 then ''1970/01/01'' else ''1970/01/02'')"

definition ex_bucket :: "int \<Rightarrow> string \<Rightarrow> int \<Rightarrow> int \<Rightarrow> int \<Rightarrow> history_row" where
  "ex_bucket k d f c u = \<lparr>hist_id = k, date = d, failed = f, changed = c, unchanged = u\<rparr>"

definition day_store :: store where
  "day_store = empty_store\<lparr>history := [ex_bucket 1 ''1970/01/01'' 2 3 4], history_seq := 1\<rparr>"

text \<open>A history table with sixteen daily buckets.\<close>

definition month_store :: store where
  "month_store = empty_store\<lparr>history :=
     [ex_bucket 1 ''2026/10/03'' 0 1 5, ex_bucket 2 ''2026/10/01'' 1 0 4,
      ex_bucket 3 ''2026/10/02'' 0 0 6, ex_bucket 4 ''2026/10/04'' 0 2 3,
      ex_bucket 5 ''2026/10/05'' 0 1 5, ex_bucket 6 ''2026/10/06'' 0 1 5,
      ex_bucket 7 ''2026/10/07'' 0 1 5, ex_bucket 8 ''2026/10/08'' 0 1 5,
      ex_bucket 9 ''2026/10/09'' 0 1 5, ex_bucket 10 ''2026/10/10'' 0 1 5,
      ex_bucket 11 ''2026/10/11'' 0 1 5, ex_bucket 12 ''2026/10/12'' 0 1 5,
      ex_bucket 13 ''2026/10/13'' 0 1 5, ex_bucket 14 ''2026/10/14'' 0 1 5,
      ex_bucket 15 ''2026/10/15'' 0 1 5, ex_bucket 16 ''2026/10/16'' 0 1 5],
     history_seq := 16\<rparr>"

text \<open>A stand-in for the relative-time helper, and a store with many reports of one host.\<close>

definition ex_timeRelative :: "string \<Rightarrow> string" where
  "ex_timeRelative t = t @ '' seconds after the epoch''"

definition busy_store :: store where
  "busy_store = empty_store\<lparr>reports :=
      ex_report 1 2 ''db01'' ''failed'' ''h'' 2000
      # map (\<lambda>k. ex_report (int k) 1 ''web01'' ''changed'' (itoa (int k)) (1000 + int k)) [2..<54],
    reports_seq := 53\<rparr>"

text \<open>
  A parsed report of \<open>web01\<close>, and a store whose only host row has the key 0, the value
  that \<^verbatim>\<open>getHostId\<close> returns for a missing row.
\<close>

definition web01_report :: PuppetReport where
  "web01_report =
     \<lparr>Fqdn = ''web01'', State = ''changed'', Runtime = 12, Failed = 0, Changed = 1, Total = 10,
      Skipped = 0, Role = ''web'', Branch = ''main'', BuildTime = 0, Hash = ''h1''\<rparr>"

definition zero_id_store :: store where
  "zero_id_store = empty_store\<lparr>hosts := [ex_host 0 ''web01'' ''failed'' 5 0]\<rparr>"

text \<open>
  A parser that accepts one body, and three states of the filesystem with a staged job
  under \<open>/tmp\<close>: one before the report was ever stored, one with bytes that
  do not parse, and one where the artifact of the report is already in place.
\<close>

definition ex_parse :: "string \<Rightarrow> string + PuppetReport" where
  "ex_parse c = (if c = ''report-A'' then Inr web01_report else Inl ''yaml: could not parse'')"

definition fresh_world :: world where
  "fresh_world =
     \<lparr>w_files = [([''tmp''], Dir), ([''tmp'', ''job2''], File ''report-A'')],
      w_db = Some empty_store\<rparr>"

definition garbage_world :: world where
  "garbage_world =
     \<lparr>w_files = [([''tmp''], Dir), ([''tmp'', ''job1''], File ''garbage'')],
      w_db = Some empty_store\<rparr>"

definition duplicate_world :: world where
  "duplicate_world =
     \<lparr>w_files = [([''tmp''], Dir), ([''tmp'', ''job2''], File ''report-A''),
                 ([''reports''], Dir), ([''reports'', ''web01''], Dir),
                 ([''reports'', ''web01'', ''h1''], File ''report-A'')],
      w_db = Some empty_store\<rparr>"

text \<open>
  Runs in which the engine refuses one call: \<^verbatim>\<open>db.Begin\<close>, the UPDATE of the host
  row inside the transaction, or the commit of the transaction.
\<close>

definition begin_fault :: faults where
  "begin_fault = no_faults\<lparr>begin_fails := True\<rparr>"

definition host_exec_fault :: faults where
  "host_exec_fault = no_faults\<lparr>exec_host_fails := True\<rparr>"

definition commit_fault :: faults where
  "commit_fault = no_faults\<lparr>commit_fails := True\<rparr>"

text \<open>
  The state of a server whose database was never opened, and a state where a file stands
  in the place of the report directory of \<open>web01\<close>.
\<close>

definition closed_world :: world where
  "closed_world = \<lparr>w_files = [([''tmp''], Dir)], w_db = None\<rparr>"

definition blocked_world :: world where
  "blocked_world =
     \<lparr>w_files = [([''reports''], Dir), ([''reports'', ''web01''], File ''not a directory'')],
      w_db = Some empty_store\<rparr>"

section \<open>Properties\<close>

lemma wrap64_id: "in_int64 x \<Longrightarrow> wrap64 x = x"
  by (simp add: wrap64_def in_int64_def)

lemma sql_update_length: "length (sql_update P f rows) = length rows"
  by (simp add: sql_update_def)

lemma sql_update_nth:
  "i < length rows \<Longrightarrow> sql_update P f rows ! i = (if P (rows ! i) then f (rows ! i) else rows ! i)"
  by (simp add: sql_update_def)

subsection \<open>Orphan marking\<close>

text \<open>
  Claim C8. The sweep \<^verbatim>\<open>updateOrphans\<close> sets the state to \<open>orphaned\<close> on exactly the
  host rows whose last-seen timestamp is strictly below the clock minus the threshold
  (302400 seconds) and leaves every other field and every other row as it was: a row last
  seen at \<open>now - threshold - 1\<close> is marked, a row last seen at \<open>now - threshold + 1\<close> is
  not. The reports and history tables are untouched. The clock minus the threshold is
  assumed to be an int64 value.
\<close>

theorem updateOrphans_boundary:
  assumes "in_int64 (now - orphan_threshold)"
  shows "\<exists>s'. updateOrphans now (Some s) = Some s'
           \<and> s' = s\<lparr>hosts := hosts s'\<rparr>
           \<and> length (hosts s') = length (hosts s)
           \<and> (\<forall>i < length (hosts s).
                 (last_seen (hosts s ! i) < now - orphan_threshold
                    \<longrightarrow> hosts s' ! i = (hosts s ! i)\<lparr>host_state := ''orphaned''\<rparr>)
               \<and> (now - orphan_threshold \<le> last_seen (hosts s ! i)
                    \<longrightarrow> hosts s' ! i = hosts s ! i)
               \<and> (last_seen (hosts s ! i) = now - orphan_threshold - 1
                    \<longrightarrow> host_state (hosts s' ! i) = ''orphaned'')
               \<and> (last_seen (hosts s ! i) = now - orphan_threshold + 1
                    \<longrightarrow> hosts s' ! i = hosts s ! i))"
  using assms
  by (simp add: updateOrphans_def wrap64_id sql_update_length sql_update_nth)

text \<open>The sweep at clock 1000000 on the example store.\<close>

theorem updateOrphans_boundary_witness:
  "in_int64 (1000000 - orphan_threshold)
   \<and> map host_state (hosts (the (updateOrphans 1000000 (Some sweep_store))))
       = [''orphaned'', ''failed'', ''orphaned'', ''orphaned'']
   \<and> map last_seen (hosts (the (updateOrphans 1000000 (Some sweep_store))))
       = [697599, 697601, 5, 5]"
proof -
  have h: "in_int64 (1000000 - orphan_threshold)"
    by (simp add: in_int64_def orphan_threshold_def)
  from updateOrphans_boundary [OF h, of sweep_store]
  obtain s' where s': "updateOrphans 1000000 (Some sweep_store) = Some s'"
    and len: "length (hosts s') = length (hosts sweep_store)"
    and rows: "\<forall>i < length (hosts sweep_store).
                 (last_seen (hosts sweep_store ! i) < 1000000 - orphan_threshold
                    \<longrightarrow> hosts s' ! i = (hosts sweep_store ! i)\<lparr>host_state := ''orphaned''\<rparr>)
               \<and> (1000000 - orphan_threshold \<le> last_seen (hosts sweep_store ! i)
                    \<longrightarrow> hosts s' ! i = hosts sweep_store ! i)"
    by blast
  have l4: "length (hosts s') = 4" using len by (simp add: sweep_store_def)
  have r0: "hosts s' ! 0 = (ex_host 1 ''web01'' ''changed'' 697599 0)\<lparr>host_state := ''orphaned''\<rparr>"
    using rows [rule_format, of 0] by (simp add: sweep_store_def ex_host_def orphan_threshold_def)
  have r1: "hosts s' ! 1 = ex_host 2 ''web02'' ''failed'' 697601 0"
    using rows [rule_format, of 1] by (simp add: sweep_store_def ex_host_def orphan_threshold_def)
  have r2: "hosts s' ! 2 = (ex_host 3 ''db01'' ''orphaned'' 5 1)\<lparr>host_state := ''orphaned''\<rparr>"
    using rows [rule_format, of 2] by (simp add: sweep_store_def ex_host_def orphan_threshold_def)
  have r3: "hosts s' ! 3 = (ex_host 4 ''db02'' ''changed'' 5 0)\<lparr>host_state := ''orphaned''\<rparr>"
    using rows [rule_format, of 3] by (simp add: sweep_store_def ex_host_def orphan_threshold_def)
  have "hosts s' = [hosts s' ! 0, hosts s' ! 1, hosts s' ! 2, hosts s' ! 3]"
    using l4 by (auto simp: list_eq_iff_nth_eq nth_Cons' numeral_eq_Suc less_Suc_eq)
  then have "hosts s' = [(ex_host 1 ''web01'' ''changed'' 697599 0)\<lparr>host_state := ''orphaned''\<rparr>,
       ex_host 2 ''web02'' ''failed'' 697601 0,
       (ex_host 3 ''db01'' ''orphaned'' 5 1)\<lparr>host_state := ''orphaned''\<rparr>,
       (ex_host 4 ''db02'' ''changed'' 5 0)\<lparr>host_state := ''orphaned''\<rparr>]"
    using r0 r1 r2 r3 by simp
  then show ?thesis using h s' by (simp add: ex_host_def)
qed

subsection \<open>Orphan purge\<close>

text \<open>
  Claim C6. Whatever the clock, the number of days, the state of a host and its last-seen
  timestamp, \<^verbatim>\<open>purgeOrphans\<close> keeps every host row whose pinned column is not 0: the
  pinned rows after the purge are the pinned rows before it, in the same order.
\<close>

theorem purgeOrphans_keeps_pinned:
  "\<exists>s'. purgeOrphans now days (Some s) = Some s'
      \<and> filter (\<lambda>h. pinned h \<noteq> 0) (hosts s') = filter (\<lambda>h. pinned h \<noteq> 0) (hosts s)
      \<and> (\<forall>h \<in> set (hosts s). pinned h \<noteq> 0 \<longrightarrow> h \<in> set (hosts s'))"
  by (auto simp: purgeOrphans_def sql_delete_def intro: filter_cong)

text \<open>The pinned, orphaned host last seen at second 5 survives a purge of 30 days.\<close>

theorem purgeOrphans_keeps_pinned_witness:
  "ex_host 3 ''db01'' ''orphaned'' 5 1 \<in> set (hosts sweep_store)
   \<and> pinned (ex_host 3 ''db01'' ''orphaned'' 5 1) \<noteq> 0
   \<and> ex_host 3 ''db01'' ''orphaned'' 5 1 \<in> set (hosts (the (purgeOrphans 8640000 30 (Some sweep_store))))"
proof -
  have a: "ex_host 3 ''db01'' ''orphaned'' 5 1 \<in> set (hosts sweep_store)"
    by (simp add: sweep_store_def)
  have b: "pinned (ex_host 3 ''db01'' ''orphaned'' 5 1) \<noteq> 0"
    by (simp add: ex_host_def)
  from purgeOrphans_keeps_pinned [of 8640000 30 sweep_store] a b
  show ?thesis by auto
qed

text \<open>
  Claim C4, as the code has it. \<^verbatim>\<open>purgeOrphans(days)\<close> deletes exactly the host rows
  whose last-seen timestamp is strictly older than the clock minus \<open>days * 86400\<close> and
  whose pinned column is 0, whatever their state; all other host rows are kept as they
  are, and no row of the reports table is deleted. When the threshold is at least the 3.5
  days of the orphan sweep, every deleted host is stale enough for that sweep to mark it
  \<open>orphaned\<close> at the same clock. The products and differences are assumed to be int64
  values.
\<close>

theorem purgeOrphans_stale_unpinned:
  assumes "in_int64 (days * 86400)" and "in_int64 (now - days * 86400)"
  shows "\<exists>s'. purgeOrphans now days (Some s) = Some s'
           \<and> s' = s\<lparr>hosts := hosts s'\<rparr>
           \<and> reports s' = reports s
           \<and> hosts s' = filter (\<lambda>h. \<not> (last_seen h < now - days * 86400 \<and> pinned h = 0)) (hosts s)
           \<and> (\<forall>h \<in> set (hosts s).
                 h \<notin> set (hosts s') \<longleftrightarrow> last_seen h < now - days * 86400 \<and> pinned h = 0)
           \<and> (orphan_threshold \<le> days * 86400 \<longrightarrow>
                (\<forall>h \<in> set (hosts s).
                   h \<notin> set (hosts s') \<longrightarrow> last_seen h < now - orphan_threshold))"
  using assms
  by (auto simp: purgeOrphans_def purge_cutoff_def wrap64_id sql_delete_def)

text \<open>A purge of 30 days at clock 8640000 on the example store.\<close>

theorem purgeOrphans_stale_unpinned_witness:
  "in_int64 (30 * 86400) \<and> in_int64 (8640000 - 30 * 86400)
   \<and> map host_fqdn (hosts (the (purgeOrphans 8640000 30 (Some sweep_store)))) = [''db01'']
   \<and> reports (the (purgeOrphans 8640000 30 (Some sweep_store))) = reports sweep_store"
proof -
  have a: "in_int64 (30 * 86400)" and b: "in_int64 (8640000 - 30 * 86400)"
    by (simp_all add: in_int64_def)
  from purgeOrphans_stale_unpinned [OF a b, of sweep_store]
  show ?thesis using a b by (auto simp: sweep_store_def ex_host_def)
qed

text \<open>
  Claim C4 as stated fails: the purge removes the host \<open>web01\<close>, whose state is
  \<open>changed\<close> and not \<open>orphaned\<close>, and it removes the host \<open>db02\<close> while the report
  row of that host stays in the reports table.
\<close>

theorem purgeOrphans_counterexample:
  "hosts (the (purgeOrphans 8640000 30 (Some sweep_store))) = [ex_host 3 ''db01'' ''orphaned'' 5 1]
   \<and> host_state (hosts sweep_store ! 0) = ''changed''
   \<and> hosts sweep_store ! 0 \<notin> set (hosts (the (purgeOrphans 8640000 30 (Some sweep_store))))
   \<and> reports (the (purgeOrphans 8640000 30 (Some sweep_store))) = [ex_report 1 4 ''db02'' ''changed'' ''h1'' 5]"
  by (simp add: purgeOrphans_def purge_cutoff_def wrap64_def sql_delete_def sweep_store_def ex_host_def)

subsection \<open>History increment\<close>

lemma fold_max_ge: "(k::int) \<in> set ks \<Longrightarrow> k \<le> fold max ks a"
proof (induction ks arbitrary: a)
  case Nil then show ?case by simp
next
  case (Cons x xs)
  have mono: "\<And>b. b \<le> fold max xs b"
  proof -
    fix b :: int show "b \<le> fold max xs b"
    proof (induction xs arbitrary: b)
      case Nil show ?case by simp
    next
      case (Cons y ys)
      have "b \<le> max y b" by simp
      also have "\<dots> \<le> fold max ys (max y b)" by (rule Cons.IH)
      finally show ?case by simp
    qed
  qed
  show ?case
  proof (cases "k = x")
    case True
    have "x \<le> max x a" by simp
    also have "\<dots> \<le> fold max xs (max x a)" by (rule mono)
    finally show ?thesis using True by simp
  next
    case False
    then have "k \<in> set xs" using Cons.prems by simp
    then show ?thesis using Cons.IH by simp
  qed
qed

lemma next_key_fresh: "next_key seq ks \<notin> set ks"
proof
  assume "next_key seq ks \<in> set ks"
  then have "next_key seq ks \<le> fold max ks seq" by (rule fold_max_ge)
  then show False by (simp add: next_key_def)
qed

lemma sql_update_unique:
  assumes "distinct (map key rows)" and "rows = us @ r # vs"
  shows "sql_update (\<lambda>x. key x = key r) f rows = us @ f r # vs"
proof -
  have "\<forall>u \<in> set us. key u \<noteq> key r" and "\<forall>v \<in> set vs. key v \<noteq> key r"
    using assms by (auto simp: image_iff)
  then have "map (\<lambda>x. if key x = key r then f x else x) us = us"
    and "map (\<lambda>x. if key x = key r then f x else x) vs = vs"
    by (simp_all add: map_idI)
  then show ?thesis
    using assms(2) by (simp add: sql_update_def)
qed

lemma sql_update_none:
  "\<forall>x \<in> set rows. \<not> P x \<Longrightarrow> sql_update P f rows = rows"
  by (simp add: sql_update_def map_idI)

lemma history_lookup_first:
  assumes "history s = us @ r # vs" and "date r = d" and "d \<notin> date ` set us"
  shows "history_lookup d s = Some (hist_id r)"
proof -
  have "filter (\<lambda>x. date x = d) us = []" using assms(3) by (auto simp: filter_empty_conv)
  then show ?thesis using assms(1,2) by (simp add: history_lookup_def sql_select_def)
qed

lemma history_lookup_none:
  "d \<notin> date ` set (history s) \<Longrightarrow> history_lookup d s = None"
proof -
  assume "d \<notin> date ` set (history s)"
  then have "filter (\<lambda>x. date x = d) (history s) = []"
    by (auto simp: filter_empty_conv)
  then show ?thesis by (simp add: history_lookup_def sql_select_def)
qed


lemma updateHistory_existing:
  assumes "distinct (map hist_id (history s))"
    and "history s = us @ r # vs" and "date r = dateOf epoch" and "dateOf epoch \<notin> date ` set us"
  shows "updateHistory dateOf epoch st (Some s)
           = (None, Some (s\<lparr>history := us @ add_counters (state_increments st) r # vs\<rparr>))"
proof -
  have "history_lookup (dateOf epoch) s = Some (hist_id r)"
    using assms(2-4) by (rule history_lookup_first)
  moreover have "sql_update (\<lambda>x. hist_id x = hist_id r) (add_counters (state_increments st)) (history s)
        = us @ add_counters (state_increments st) r # vs"
    using assms(1,2) by (rule sql_update_unique)
  ultimately show ?thesis by (simp add: updateHistory_def update_history_def)
qed

lemma updateHistory_fresh:
  assumes "dateOf epoch \<notin> date ` set (history s)"
  shows "updateHistory dateOf epoch st (Some s)
           = (None, Some (s\<lparr>history := history s @
                 [add_counters (state_increments st)
                    \<lparr>hist_id = next_key (history_seq s) (map hist_id (history s)),
                     date = dateOf epoch, failed = 0, changed = 0, unchanged = 0\<rparr>],
               history_seq := next_key (history_seq s) (map hist_id (history s))\<rparr>))"
proof -
  let ?d = "dateOf epoch"
  let ?k = "next_key (history_seq s) (map hist_id (history s))"
  let ?r = "\<lparr>hist_id = ?k, date = ?d, failed = 0, changed = 0, unchanged = 0\<rparr>"
  let ?s1 = "s\<lparr>history := history s @ [?r], history_seq := ?k\<rparr>"
  have l0: "history_lookup ?d s = None" using assms by (rule history_lookup_none)
  have ins: "insert_history ?d s = ?s1" using assms by (simp add: insert_history_def Let_def)
  have l1: "history_lookup ?d ?s1 = Some ?k"
    using history_lookup_first [of ?s1 "history s" ?r "[]" ?d] assms by simp
  have fresh: "\<forall>x \<in> set (history s). \<not> hist_id x = ?k"
    using next_key_fresh [of "history_seq s" "map hist_id (history s)"] by (auto simp: image_iff)
  have upd: "sql_update (\<lambda>x. hist_id x = ?k) (add_counters (state_increments st)) (history s @ [?r])
        = history s @ [add_counters (state_increments st) ?r]"
    using sql_update_none [OF fresh] by (simp add: sql_update_def)
  show ?thesis
    using l0 l1 upd by (simp add: updateHistory_def ins update_history_def)
qed


lemma add_counters_explicit:
  "add_counters (state_increments st) r =
     r\<lparr>failed := failed r + (if st = ''failed'' then 1 else 0),
       changed := changed r + (if st = ''changed'' then 1 else 0),
       unchanged := unchanged r + (if st = ''unchanged'' then 1 else 0)\<rparr>"
  by (simp add: add_counters_def state_increments_def)

lemma add_counters_grows:
  "hist_id (add_counters (state_increments st) r) = hist_id r
   \<and> date (add_counters (state_increments st) r) = date r
   \<and> failed r \<le> failed (add_counters (state_increments st) r)
   \<and> changed r \<le> changed (add_counters (state_increments st) r)
   \<and> unchanged r \<le> unchanged (add_counters (state_increments st) r)"
  by (simp add: add_counters_explicit)

text \<open>
  Claim C9. \<^verbatim>\<open>updateHistory\<close> takes the date key of the epoch. When a bucket with that
  date exists, the first such bucket gets exactly the counter named by the state increased
  by one (\<open>failed\<close>, \<open>changed\<close> or \<open>unchanged\<close>; no counter for any other state) and
  every other bucket stays as it is. When no bucket has that date, a bucket with a fresh
  key and all counters zero is appended and then incremented in the same way. Hosts and
  reports are untouched, no bucket disappears, and no counter of any bucket decreases.
  The keys of the buckets are assumed distinct (\<open>id\<close> is the primary key).
\<close>

theorem updateHistory_increment:
  assumes "distinct (map hist_id (history s))"
  shows "\<exists>s'. updateHistory dateOf epoch st (Some s) = (None, Some s')
     \<and> hosts s' = hosts s \<and> reports s' = reports s
     \<and> (\<forall>us r vs. history s = us @ r # vs \<and> date r = dateOf epoch \<and> dateOf epoch \<notin> date ` set us
           \<longrightarrow> history s' = us @
                 r\<lparr>failed := failed r + (if st = ''failed'' then 1 else 0),
                   changed := changed r + (if st = ''changed'' then 1 else 0),
                   unchanged := unchanged r + (if st = ''unchanged'' then 1 else 0)\<rparr> # vs)
     \<and> (dateOf epoch \<notin> date ` set (history s)
           \<longrightarrow> (\<exists>k. k \<notin> hist_id ` set (history s)
                 \<and> history s' = history s @
                     [\<lparr>hist_id = k, date = dateOf epoch,
                       failed = (if st = ''failed'' then 1 else 0),
                       changed = (if st = ''changed'' then 1 else 0),
                       unchanged = (if st = ''unchanged'' then 1 else 0)\<rparr>]))
     \<and> length (history s) \<le> length (history s')
     \<and> (\<forall>i < length (history s). bucket_grows (history s ! i) (history s' ! i))"
proof (cases "dateOf epoch \<in> date ` set (history s)")
  case True
  then have "\<exists>x \<in> set (history s). date x = dateOf epoch" by auto
  then obtain us r vs where dec: "history s = us @ r # vs" and dr: "date r = dateOf epoch"
    and first: "\<forall>u \<in> set us. date u \<noteq> dateOf epoch"
    using split_list_first_prop [of "history s" "\<lambda>x. date x = dateOf epoch"] by blast
  have nin: "dateOf epoch \<notin> date ` set us" using first by auto
  let ?s' = "s\<lparr>history := us @ add_counters (state_increments st) r # vs\<rparr>"
  have run: "updateHistory dateOf epoch st (Some s) = (None, Some ?s')"
    using assms dec dr nin by (rule updateHistory_existing)
  have other: "history ?s' = us' @ add_counters (state_increments st) r' # vs'"
    if "history s = us' @ r' # vs'" "date r' = dateOf epoch" "dateOf epoch \<notin> date ` set us'"
    for us' r' vs'
  proof -
    have "updateHistory dateOf epoch st (Some s)
            = (None, Some (s\<lparr>history := us' @ add_counters (state_increments st) r' # vs'\<rparr>))"
      using assms that by (rule updateHistory_existing)
    with run have "?s' = s\<lparr>history := us' @ add_counters (state_increments st) r' # vs'\<rparr>" by simp
    then have "history ?s' = history (s\<lparr>history := us' @ add_counters (state_increments st) r' # vs'\<rparr>)"
      by (rule arg_cong)
    then show ?thesis by simp
  qed
  have grows: "bucket_grows (history s ! i) (history ?s' ! i)" if "i < length (history s)" for i
    using that add_counters_grows [of st r]
    by (auto simp: dec nth_append nth_Cons' bucket_grows_def)
  show ?thesis
    apply (rule exI [of _ ?s'])
    using run True other grows
    by (simp add: add_counters_explicit dec)
next
  case False
  let ?k = "next_key (history_seq s) (map hist_id (history s))"
  let ?s' = "s\<lparr>history := history s @
                 [add_counters (state_increments st)
                    \<lparr>hist_id = ?k, date = dateOf epoch, failed = 0, changed = 0, unchanged = 0\<rparr>],
               history_seq := ?k\<rparr>"
  have run: "updateHistory dateOf epoch st (Some s) = (None, Some ?s')"
    using False by (rule updateHistory_fresh)
  have fresh: "?k \<notin> hist_id ` set (history s)"
    using next_key_fresh [of "history_seq s" "map hist_id (history s)"] by simp
  have nodec: "\<not> (history s = us @ r # vs \<and> date r = dateOf epoch)" for us r vs
    using False by (auto simp: image_iff)
  have grows: "bucket_grows (history s ! i) (history ?s' ! i)" if "i < length (history s)" for i
    using that by (simp add: nth_append bucket_grows_def)
  show ?thesis
    apply (rule exI [of _ ?s'])
    using run False fresh nodec grows
    by (auto simp: add_counters_explicit)
qed

text \<open>
  One report in state \<open>changed\<close> on the first day, and one in state \<open>failed\<close> on a
  day that has no bucket yet.
\<close>

theorem updateHistory_increment_witness:
  "distinct (map hist_id (history day_store))
   \<and> history day_store = [] @ ex_bucket 1 ''1970/01/01'' 2 3 4 # []
   \<and> date (ex_bucket 1 ''1970/01/01'' 2 3 4) = ex_dateOf 100
   \<and> ex_dateOf 100 \<notin> date ` set []
   \<and> ex_dateOf 90000 \<notin> date ` set (history day_store)
   \<and> history (the (snd (updateHistory ex_dateOf 100 ''changed'' (Some day_store))))
       = [ex_bucket 1 ''1970/01/01'' 2 4 4]
   \<and> length (history (the (snd (updateHistory ex_dateOf 90000 ''failed'' (Some day_store))))) = 2
   \<and> map date (history (the (snd (updateHistory ex_dateOf 90000 ''failed'' (Some day_store)))))
       = [''1970/01/01'', ''1970/01/02'']
   \<and> map failed (history (the (snd (updateHistory ex_dateOf 90000 ''failed'' (Some day_store)))))
       = [2, 1]"
proof -
  have d: "distinct (map hist_id (history day_store))"
    by (simp add: day_store_def empty_store_def)
  have h: "history day_store = [] @ ex_bucket 1 ''1970/01/01'' 2 3 4 # []"
    by (simp add: day_store_def empty_store_def)
  have e1: "date (ex_bucket 1 ''1970/01/01'' 2 3 4) = ex_dateOf 100"
    by (simp add: ex_bucket_def ex_dateOf_def)
  have e2: "ex_dateOf 90000 \<notin> date ` set (history day_store)"
    by (simp add: day_store_def empty_store_def ex_bucket_def ex_dateOf_def)
  from updateHistory_increment [OF d, of ex_dateOf 100 "''changed''"]
  obtain s1 where run1: "updateHistory ex_dateOf 100 ''changed'' (Some day_store) = (None, Some s1)"
    and ex1: "\<forall>us r vs. history day_store = us @ r # vs \<and> date r = ex_dateOf 100
                 \<and> ex_dateOf 100 \<notin> date ` set us
           \<longrightarrow> history s1 = us @
                 r\<lparr>failed := failed r + (if ''changed'' = ''failed'' then 1 else 0),
                   changed := changed r + (if ''changed'' = ''changed'' then 1 else 0),
                   unchanged := unchanged r + (if ''changed'' = ''unchanged'' then 1 else 0)\<rparr> # vs"
    by blast
  from ex1 [rule_format, of "[]" "ex_bucket 1 ''1970/01/01'' 2 3 4" "[]"] h e1
  have "history s1 = [ex_bucket 1 ''1970/01/01'' 2 4 4]"
    by (simp add: ex_bucket_def)
  with run1 have a: "history (the (snd (updateHistory ex_dateOf 100 ''changed'' (Some day_store))))
       = [ex_bucket 1 ''1970/01/01'' 2 4 4]"
    by simp
  from updateHistory_increment [OF d, of ex_dateOf 90000 "''failed''"] e2
  have b: "length (history (the (snd (updateHistory ex_dateOf 90000 ''failed'' (Some day_store))))) = 2
    \<and> map date (history (the (snd (updateHistory ex_dateOf 90000 ''failed'' (Some day_store)))))
       = [''1970/01/01'', ''1970/01/02'']
    \<and> map failed (history (the (snd (updateHistory ex_dateOf 90000 ''failed'' (Some day_store)))))
       = [2, 1]"
    by (auto simp: day_store_def empty_store_def ex_bucket_def ex_dateOf_def)
  show ?thesis using d h e1 e2 a b by simp
qed

subsection \<open>History retention\<close>

lemma delete_by_key:
  assumes "distinct (map key rows)" and "set del \<subseteq> set rows"
  shows "sql_delete (\<lambda>r. key r \<in> set (map key del)) rows = filter (\<lambda>r. r \<notin> set del) rows"
proof -
  have inj: "inj_on key (set rows)" using assms(1) by (simp add: distinct_map)
  have "key r \<in> key ` set del \<longleftrightarrow> r \<in> set del" if "r \<in> set rows" for r
    using inj assms(2) that by (auto dest: inj_onD)
  then show ?thesis by (auto simp: sql_delete_def intro: filter_cong)
qed

lemma length_filter_remove:
  assumes "distinct rows" and "distinct del" and "set del \<subseteq> set rows"
  shows "length (filter (\<lambda>r. r \<notin> set del) rows) = length rows - length del"
proof -
  have "distinct (filter (\<lambda>r. r \<notin> set del) rows)" using assms(1) by simp
  then have "length (filter (\<lambda>r. r \<notin> set del) rows) = card (set (filter (\<lambda>r. r \<notin> set del) rows))"
    by (simp only: distinct_card)
  also have "set (filter (\<lambda>r. r \<notin> set del) rows) = set rows - set del" by auto
  also have "card (set rows - set del) = card (set rows) - card (set del)"
    using assms(3) by (simp add: card_Diff_subset)
  finally show ?thesis using assms(1,2) by (simp add: distinct_card)
qed


lemma pruneHistory_small:
  "length (history s) \<le> 14 \<Longrightarrow> pruneHistory (Some s) = Some s"
  by (simp add: pruneHistory_def)

lemma pruneHistory_large:
  assumes "distinct (map hist_id (history s))" and "14 < length (history s)"
  shows "pruneHistory (Some s) =
           Some (s\<lparr>history := filter (\<lambda>r. r \<notin> set (take (length (history s) - 14)
                                                    (sort_key date (history s)))) (history s)\<rparr>)"
proof -
  let ?D = "take (length (history s) - 14) (sort_key date (history s))"
  have n: "nat (int (length (history s)) - 14) = length (history s) - 14" by simp
  have sub: "set ?D \<subseteq> set (history s)"
    using set_take_subset [of "length (history s) - 14" "sort_key date (history s)"] by simp
  have "sql_delete (\<lambda>r. hist_id r \<in> set (map hist_id ?D)) (history s)
          = filter (\<lambda>r. r \<notin> set ?D) (history s)"
    using assms(1) sub by (rule delete_by_key)
  then show ?thesis
    using assms(2) by (simp add: pruneHistory_def Let_def n)
qed

lemma sorted_take_drop:
  assumes "x \<in> set (take n (sort_key f xs))" and "y \<in> set (drop n (sort_key f xs))"
  shows "f x \<le> f y"
proof -
  have "sorted (map f (take n (sort_key f xs) @ drop n (sort_key f xs)))" by simp
  then have "sorted (map f (take n (sort_key f xs)) @ map f (drop n (sort_key f xs)))"
    by (simp only: map_append)
  then show ?thesis using assms by (auto simp: sorted_append)
qed

text \<open>
  Claim C7. \<^verbatim>\<open>pruneHistory\<close> keeps 14 buckets. With at most 14 buckets the store is
  unchanged. With more, exactly 14 buckets remain (so exactly \<open>count - 14\<close> are deleted),
  the remaining buckets are rows of the old table, unchanged and in their old order, and
  every deleted bucket has a date no later than every remaining bucket: strictly earlier
  when the dates are distinct, as \<^verbatim>\<open>UNIQUE(date)\<close> makes them. The other tables are
  untouched. The keys of the buckets are assumed distinct (\<open>id\<close> is the primary key).
\<close>

theorem pruneHistory_retention:
  assumes "distinct (map hist_id (history s))"
  shows "\<exists>s'. pruneHistory (Some s) = Some s' \<and> s' = s\<lparr>history := history s'\<rparr>
     \<and> (length (history s) \<le> 14 \<longrightarrow> s' = s)
     \<and> (14 < length (history s) \<longrightarrow>
          length (history s') = 14
          \<and> history s' = filter (\<lambda>r. r \<in> set (history s')) (history s)
          \<and> (\<forall>kept \<in> set (history s'). \<forall>gone \<in> set (history s) - set (history s').
                date gone \<le> date kept)
          \<and> (distinct (map date (history s)) \<longrightarrow>
               (\<forall>kept \<in> set (history s'). \<forall>gone \<in> set (history s) - set (history s').
                  date gone < date kept)))"
proof (cases "length (history s) \<le> 14")
  case True
  then show ?thesis using pruneHistory_small [of s] by simp
next
  case False
  then have big: "14 < length (history s)" by simp
  let ?n = "length (history s) - 14"
  let ?srt = "sort_key date (history s)"
  let ?D = "take ?n ?srt"
  let ?K = "drop ?n ?srt"
  let ?h' = "filter (\<lambda>r. r \<notin> set ?D) (history s)"
  let ?s' = "s\<lparr>history := ?h'\<rparr>"
  have run: "pruneHistory (Some s) = Some ?s'" using assms big by (rule pruneHistory_large)
  have dh: "distinct (history s)" using assms by (rule distinct_map [THEN iffD1, THEN conjunct1])
  have dsrt: "distinct ?srt" using dh by simp
  have dD: "distinct ?D" using dsrt by simp
  have subD: "set ?D \<subseteq> set (history s)"
    using set_take_subset [of ?n ?srt] by simp
  have lenD: "length ?D = ?n" by simp
  have len: "length ?h' = 14"
    using length_filter_remove [OF dh dD subD] lenD big by simp
  have split: "set (history s) = set ?D \<union> set ?K"
    using set_append [of ?D ?K] by simp
  have seth': "set ?h' = set (history s) - set ?D" by auto
  have keptK: "r \<in> set ?K" if "r \<in> set ?h'" for r using that split by auto
  have goneD: "r \<in> set ?D" if "r \<in> set (history s) - set ?h'" for r using that by auto
  have le: "date g \<le> date k" if "k \<in> set ?h'" "g \<in> set (history s) - set ?h'" for k g
    using sorted_take_drop [OF goneD [OF that(2)] keptK [OF that(1)]] .
  have lt: "date g < date k"
    if "distinct (map date (history s))" "k \<in> set ?h'" "g \<in> set (history s) - set ?h'" for k g
  proof -
    have inj: "inj_on date (set (history s))" using that(1) by (simp add: distinct_map)
    have "k \<in> set (history s)" "g \<in> set (history s)" "g \<noteq> k" using that(2,3) by auto
    then have "date g \<noteq> date k" using inj by (auto dest: inj_onD)
    with le [OF that(2,3)] show ?thesis by simp
  qed
  have flt: "?h' = filter (\<lambda>r. r \<in> set ?h') (history s)"
    by (rule filter_cong) auto
  have c1: "?s' = s\<lparr>history := history ?s'\<rparr>" by simp
  have c3: "length (history ?s') = 14" using len by simp
  have c4: "history ?s' = filter (\<lambda>r. r \<in> set (history ?s')) (history s)" using flt by simp
  have c5: "\<forall>kept \<in> set (history ?s'). \<forall>gone \<in> set (history s) - set (history ?s').
                date gone \<le> date kept" using le by simp
  have c6: "distinct (map date (history s)) \<longrightarrow>
               (\<forall>kept \<in> set (history ?s'). \<forall>gone \<in> set (history s) - set (history ?s').
                  date gone < date kept)" using lt by simp
  show ?thesis
    apply (rule exI [of _ ?s'])
    using run False c1 c3 c4 c5 c6 by blast
qed

text \<open>
  Sixteen buckets, the first three inserted out of date order: the buckets of the first
  and second of the month go, the other fourteen stay.
\<close>

theorem pruneHistory_retention_witness:
  "distinct (map hist_id (history month_store))
   \<and> 14 < length (history month_store)
   \<and> distinct (map date (history month_store))
   \<and> length (history (the (pruneHistory (Some month_store)))) = 14
   \<and> map hist_id (history (the (pruneHistory (Some month_store))))
        = [1, 4, 5, 6, 7, 8, 9, 10, 11, 12, 13, 14, 15, 16]
   \<and> ex_bucket 1 ''2026/10/03'' 0 1 5 \<in> set (history (the (pruneHistory (Some month_store))))
   \<and> ex_bucket 2 ''2026/10/01'' 1 0 4
        \<in> set (history month_store) - set (history (the (pruneHistory (Some month_store))))
   \<and> date (ex_bucket 2 ''2026/10/01'' 1 0 4) < date (ex_bucket 1 ''2026/10/03'' 0 1 5)"
proof -
  have d: "distinct (map hist_id (history month_store))"
    by (simp add: month_store_def empty_store_def ex_bucket_def)
  have big: "14 < length (history month_store)"
    by (simp add: month_store_def empty_store_def)
  have dd: "distinct (map date (history month_store))"
    by (simp add: month_store_def empty_store_def ex_bucket_def)
  have ids: "map hist_id (history (the (pruneHistory (Some month_store))))
        = [1, 4, 5, 6, 7, 8, 9, 10, 11, 12, 13, 14, 15, 16]"
    by (simp add: pruneHistory_def month_store_def empty_store_def ex_bucket_def sql_delete_def)
  have kept: "ex_bucket 1 ''2026/10/03'' 0 1 5 \<in> set (history (the (pruneHistory (Some month_store))))"
    by (simp add: pruneHistory_def month_store_def empty_store_def ex_bucket_def sql_delete_def)
  have gone: "ex_bucket 2 ''2026/10/01'' 1 0 4
        \<in> set (history month_store) - set (history (the (pruneHistory (Some month_store))))"
    by (simp add: pruneHistory_def month_store_def empty_store_def ex_bucket_def sql_delete_def)
  from pruneHistory_retention [OF d] big dd
  obtain s' where run: "pruneHistory (Some month_store) = Some s'"
    and len: "length (history s') = 14"
    and lt: "\<forall>kept \<in> set (history s'). \<forall>gone \<in> set (history month_store) - set (history s').
                  date gone < date kept"
    by blast
  have l14: "length (history (the (pruneHistory (Some month_store)))) = 14"
    using run len by simp
  have "date (ex_bucket 2 ''2026/10/01'' 1 0 4) < date (ex_bucket 1 ''2026/10/03'' 0 1 5)"
    using lt kept gone run by auto
  then show ?thesis using d big dd ids kept gone l14 by blast
qed

subsection \<open>Report listing\<close>

lemma select_reports_subset:
  "set (select_reports fqdn s) \<subseteq> {r \<in> set (reports s). rep_fqdn r = fqdn}"
proof -
  have "set (select_reports fqdn s)
          \<subseteq> set (sort_key (\<lambda>r. - executed_at r) (sql_select (\<lambda>r. rep_fqdn r = fqdn) (reports s)))"
    unfolding select_reports_def by (rule set_take_subset)
  then show ?thesis by (auto simp: sql_select_def)
qed

lemma select_reports_length:
  "length (select_reports fqdn s) = min 50 (length (filter (\<lambda>r. rep_fqdn r = fqdn) (reports s)))"
  by (simp add: select_reports_def sql_select_def min.commute)

lemma select_reports_descending:
  "sorted_wrt (\<lambda>a b. executed_at b \<le> executed_at a) (select_reports fqdn s)"
proof -
  let ?l = "sort_key (\<lambda>r. - executed_at r) (sql_select (\<lambda>r. rep_fqdn r = fqdn) (reports s))"
  have "sorted (map (\<lambda>r. - executed_at r) ?l)" by simp
  then have "sorted_wrt (\<lambda>a b. - executed_at a \<le> - executed_at b) ?l"
    by (simp only: sorted_map)
  then have "sorted_wrt (\<lambda>a b. executed_at b \<le> executed_at a) ?l" by simp
  then show ?thesis unfolding select_reports_def by (rule sorted_wrt_take)
qed

lemma select_reports_newest:
  assumes "r \<in> set (reports s)" and "rep_fqdn r = fqdn" and "r \<notin> set (select_reports fqdn s)"
    and "k \<in> set (select_reports fqdn s)"
  shows "executed_at r \<le> executed_at k"
proof -
  let ?l = "sort_key (\<lambda>r. - executed_at r) (sql_select (\<lambda>r. rep_fqdn r = fqdn) (reports s))"
  have "r \<in> set ?l" using assms(1,2) by (simp add: sql_select_def)
  then have "r \<in> set (take 50 ?l) \<union> set (drop 50 ?l)"
    using set_append [of "take 50 ?l" "drop 50 ?l"] by simp
  then have rd: "r \<in> set (drop 50 ?l)" using assms(3) by (simp add: select_reports_def)
  have kt: "k \<in> set (take 50 ?l)" using assms(4) by (simp add: select_reports_def)
  have "sorted (map (\<lambda>r. - executed_at r) (take 50 ?l @ drop 50 ?l))" by simp
  then have "sorted (map (\<lambda>r. - executed_at r) (take 50 ?l) @ map (\<lambda>r. - executed_at r) (drop 50 ?l))"
    by (simp only: map_append)
  then have "- executed_at k \<le> - executed_at r" using rd kt by (auto simp: sorted_append)
  then show ?thesis by simp
qed

text \<open>
  Claim C10. For every fqdn, \<^verbatim>\<open>getReports\<close> on an open store returns either a list
  or an error. A returned list is not empty, has at most 50 entries, and is the summary of
  the rows selected for that fqdn: \<open>min 50 n\<close> of the \<open>n\<close> report rows of the fqdn,
  ordered by execution timestamp descending, every row left out being no newer than every
  row returned. When the fqdn has no report row the result is the error
  \<open>Failed to find reports for\<close> that fqdn, not an empty list.
\<close>

theorem getReports_listing:
  "(\<forall>xs. getReports timeRelative formatUnix fqdn (Some s) = Inr xs \<longrightarrow>
       xs = map (summarise timeRelative formatUnix) (select_reports fqdn s)
       \<and> 0 < length xs \<and> length xs \<le> 50)
   \<and> length (select_reports fqdn s) = min 50 (length (filter (\<lambda>r. rep_fqdn r = fqdn) (reports s)))
   \<and> set (select_reports fqdn s) \<subseteq> {r \<in> set (reports s). rep_fqdn r = fqdn}
   \<and> sorted_wrt (\<lambda>a b. executed_at b \<le> executed_at a) (select_reports fqdn s)
   \<and> (\<forall>r \<in> set (reports s). \<forall>k \<in> set (select_reports fqdn s).
         rep_fqdn r = fqdn \<and> r \<notin> set (select_reports fqdn s) \<longrightarrow> executed_at r \<le> executed_at k)
   \<and> ((\<forall>r \<in> set (reports s). rep_fqdn r \<noteq> fqdn)
         \<longrightarrow> getReports timeRelative formatUnix fqdn (Some s) = Inl (NoReportsFor fqdn))
   \<and> ((\<exists>r \<in> set (reports s). rep_fqdn r = fqdn)
         \<longrightarrow> (\<exists>xs. getReports timeRelative formatUnix fqdn (Some s) = Inr xs))"
proof -
  have len: "length (select_reports fqdn s)
               = min 50 (length (filter (\<lambda>r. rep_fqdn r = fqdn) (reports s)))"
    by (rule select_reports_length)
  have a: "\<forall>xs. getReports timeRelative formatUnix fqdn (Some s) = Inr xs \<longrightarrow>
       xs = map (summarise timeRelative formatUnix) (select_reports fqdn s)
       \<and> 0 < length xs \<and> length xs \<le> 50"
    using len by (auto simp: getReports_def Let_def split: if_splits)
  have none: "getReports timeRelative formatUnix fqdn (Some s) = Inl (NoReportsFor fqdn)"
    if "\<forall>r \<in> set (reports s). rep_fqdn r \<noteq> fqdn"
  proof -
    have "filter (\<lambda>r. rep_fqdn r = fqdn) (reports s) = []" using that by (auto simp: filter_empty_conv)
    then have "length (select_reports fqdn s) = 0" using len by simp
    then show ?thesis by (simp add: getReports_def)
  qed
  have some: "\<exists>xs. getReports timeRelative formatUnix fqdn (Some s) = Inr xs"
    if "\<exists>r \<in> set (reports s). rep_fqdn r = fqdn"
  proof -
    have "filter (\<lambda>r. rep_fqdn r = fqdn) (reports s) \<noteq> []" using that by (auto simp: filter_empty_conv)
    then have "0 < length (select_reports fqdn s)" using len by simp
    then show ?thesis by (simp add: getReports_def)
  qed
  show ?thesis
    using a len select_reports_subset [of fqdn s] select_reports_descending [of fqdn s]
      select_reports_newest [of _ s fqdn] none some
    by blast
qed

text \<open>
  A store with one report of \<open>db01\<close> and 52 reports of \<open>web01\<close>: the listing of
  \<open>web01\<close> has 50 entries and starts with the three newest, and the listing of a host
  without reports is the error.
\<close>

theorem getReports_listing_witness:
  "(\<exists>r \<in> set (reports busy_store). rep_fqdn r = ''web01'')
   \<and> ''web09'' \<notin> rep_fqdn ` set (reports busy_store)
   \<and> getReports ex_timeRelative itoa ''web09'' (Some busy_store) = Inl (NoReportsFor ''web09'')
   \<and> length (filter (\<lambda>r. rep_fqdn r = ''web01'') (reports busy_store)) = 52
   \<and> length (projr (getReports ex_timeRelative itoa ''web01'' (Some busy_store))) = 50
   \<and> map sum_ID (take 3 (projr (getReports ex_timeRelative itoa ''web01'' (Some busy_store))))
        = [''53'', ''52'', ''51'']"
proof -
  have some: "\<exists>r \<in> set (reports busy_store). rep_fqdn r = ''web01''"
    by code_simp
  have none': "''web09'' \<notin> rep_fqdn ` set (reports busy_store)"
    by code_simp
  then have none: "\<forall>r \<in> set (reports busy_store). rep_fqdn r \<noteq> ''web09''"
    by (auto simp: image_iff)
  have cnt: "length (filter (\<lambda>r. rep_fqdn r = ''web01'') (reports busy_store)) = 52"
    by code_simp
  have top: "map report_id (take 3 (select_reports ''web01'' busy_store)) = [53, 52, 51]"
    by code_simp
  have ids: "map itoa [53, 52, 51] = [''53'', ''52'', ''51'']"
    by code_simp
  from getReports_listing [of ex_timeRelative itoa "''web09''" busy_store] none
  have a: "getReports ex_timeRelative itoa ''web09'' (Some busy_store) = Inl (NoReportsFor ''web09'')"
    by blast
  from getReports_listing [of ex_timeRelative itoa "''web01''" busy_store] some
  obtain xs where run: "getReports ex_timeRelative itoa ''web01'' (Some busy_store) = Inr xs"
    and xs: "xs = map (summarise ex_timeRelative itoa) (select_reports ''web01'' busy_store)"
    and len: "length (select_reports ''web01'' busy_store)
               = min 50 (length (filter (\<lambda>r. rep_fqdn r = ''web01'') (reports busy_store)))"
    by blast
  have l50: "length xs = 50" using xs len cnt by simp
  have "map sum_ID (take 3 xs) = map itoa (map report_id (take 3 (select_reports ''web01'' busy_store)))"
    unfolding xs by (simp add: take_map summarise_def)
  then have "map sum_ID (take 3 xs) = [''53'', ''52'', ''51'']" using top ids by simp
  moreover have "length (projr (getReports ex_timeRelative itoa ''web01'' (Some busy_store))) = 50"
    using run l50 by simp
  moreover have "projr (getReports ex_timeRelative itoa ''web01'' (Some busy_store)) = xs"
    using run by simp
  ultimately show ?thesis using some none' a cnt by (simp only: simp_thms)
qed

subsection \<open>Commit order and the create race of addDB\<close>

lemma getHostId_absent:
  "fqdn \<notin> set (map host_fqdn (hosts s)) \<Longrightarrow> getHostId fqdn (Some s) = Inr 0"
proof -
  assume "fqdn \<notin> set (map host_fqdn (hosts s))"
  then have "filter (\<lambda>h. host_fqdn h = fqdn) (hosts s) = []"
    by (auto simp: filter_empty_conv)
  then show ?thesis by (simp add: getHostId_def sql_select_def)
qed

lemma getHostId_inserted:
  assumes "fqdn \<notin> set (map host_fqdn (hosts s))"
  shows "getHostId fqdn (Some (insert_host fqdn s))
           = Inr (next_key (hosts_seq s) (map host_id (hosts s)))"
proof -
  have "filter (\<lambda>h. host_fqdn h = fqdn) (hosts s) = []"
    using assms by (auto simp: filter_empty_conv)
  then show ?thesis
    by (simp add: getHostId_def sql_select_def insert_host_def Let_def new_host_def)
qed

lemma getHostId_open: "\<exists>hid. getHostId fqdn (Some s) = Inr hid"
  by (simp add: getHostId_def split: list.split)

lemma getHostId_row:
  assumes "getHostId fqdn (Some s) = Inr hid" and "fqdn \<in> set (map host_fqdn (hosts s))"
  shows "\<exists>h \<in> set (hosts s). host_fqdn h = fqdn \<and> host_id h = hid"
proof -
  have ne: "filter (\<lambda>h. host_fqdn h = fqdn) (hosts s) \<noteq> []"
    using assms(2) by (auto simp: filter_empty_conv)
  then obtain h rest where f: "filter (\<lambda>h. host_fqdn h = fqdn) (hosts s) = h # rest"
    by (cases "filter (\<lambda>h. host_fqdn h = fqdn) (hosts s)") auto
  then have "h \<in> set (filter (\<lambda>h. host_fqdn h = fqdn) (hosts s))" by simp
  then have "h \<in> set (hosts s)" "host_fqdn h = fqdn" by auto
  moreover have "host_id h = hid" using assms(1) f by (simp add: getHostId_def sql_select_def)
  ultimately show ?thesis by blast
qed

lemma no_faults_fields:
  "begin_fails no_faults = False" "prepare_report_fails no_faults = False"
  "exec_report_fails no_faults = False" "prepare_host_fails no_faults = False"
  "exec_host_fails no_faults = False" "commit_fails no_faults = False"
  "history_lookup_fails no_faults = False" "history_insert_fails no_faults = False"
  "history_relookup_fails no_faults = False" "history_update_fails no_faults = False"
  by (simp_all add: no_faults_def)

text \<open>With no refused call the two descriptions of \<^verbatim>\<open>updateHistory\<close> agree.\<close>

lemma updateHistory_faulty_none:
  "updateHistory_faulty no_faults dateOf epoch st db = updateHistory dateOf epoch st db"
  by (simp add: updateHistory_faulty_def updateHistory_def history_finish_def no_faults_fields
                Let_def split: option.splits)

lemma addDB_clash:
  assumes "Fqdn data \<in> set (map host_fqdn (hosts s))"
  shows "addDB_from_lookup fl dateOf now data p 0 (Some s)
           = (Some (UniqueConstraint ''hosts.fqdn''), Some s)"
  using assms by (simp add: addDB_from_lookup_def createHost_def)

lemma addDB_known_host:
  assumes "hid \<noteq> 0"
  shows "addDB_from_lookup no_faults dateOf now data p hid (Some s)
           = (None, snd (updateHistory dateOf now (State data)
                (Some (addDB_tx no_faults now data p hid s))))"
  using assms
  by (simp add: addDB_from_lookup_def no_faults_fields updateHistory_faulty_none)

lemma addDB_new_host:
  assumes "Fqdn data \<notin> set (map host_fqdn (hosts s))"
  shows "addDB_from_lookup no_faults dateOf now data p 0 (Some s)
           = (None, snd (updateHistory dateOf now (State data)
                (Some (addDB_tx no_faults now data p (next_key (hosts_seq s) (map host_id (hosts s)))
                         (insert_host (Fqdn data) s)))))"
  using assms getHostId_inserted [OF assms]
  by (simp add: addDB_from_lookup_def createHost_def no_faults_fields updateHistory_faulty_none)

lemma updateHistory_commits_tables:
  assumes "c \<in> set (updateHistory_commits fl dateOf epoch st (Some t))"
  shows "\<exists>c'. c = Some c' \<and> hosts c' = hosts t \<and> reports c' = reports t"
  using assms
  by (auto simp: updateHistory_commits_def history_finish_commits_def update_history_def
                 insert_history_def Let_def
           split: option.splits if_splits)

lemma updateHistory_commits_last:
  "last (updateHistory_commits no_faults dateOf epoch st (Some t))
     = snd (updateHistory dateOf epoch st (Some t))"
  by (simp add: updateHistory_commits_def history_finish_commits_def updateHistory_def
                no_faults_fields Let_def split: option.splits)

lemma updateHistory_commits_nonempty:
  "updateHistory_commits no_faults dateOf epoch st (Some t) \<noteq> []"
  by (simp add: updateHistory_commits_def history_finish_commits_def no_faults_fields Let_def
           split: option.splits)

lemma addDB_tx_tables:
  "reports (addDB_tx no_faults now data p hid s)
     = reports s @ [new_report (next_key (reports_seq s) (map report_id (reports s))) now data p hid]
   \<and> hosts (addDB_tx no_faults now data p hid s)
     = sql_update (\<lambda>h. host_id h = hid) (host_snapshot now data) (hosts s)
   \<and> history (addDB_tx no_faults now data p hid s) = history s"
  by (simp add: addDB_tx_def insert_report_def update_host_def no_faults_fields Let_def)

text \<open>
  What the commit of the transaction makes visible, whatever call is refused: the history
  table is untouched, and the new report row comes with the UPDATE of the host rows when
  that UPDATE was executed.
\<close>

lemma addDB_tx_visible:
  "history (addDB_tx fl now data p hid s) = history s
   \<and> (reports (addDB_tx fl now data p hid s) = reports s
      \<or> (reports (addDB_tx fl now data p hid s)
           = reports s @ [new_report (next_key (reports_seq s) (map report_id (reports s)))
                            now data p hid]
         \<and> (\<not> exec_host_fails fl \<longrightarrow>
               hosts (addDB_tx fl now data p hid s)
                 = sql_update (\<lambda>h. host_id h = hid) (host_snapshot now data) (hosts s))))"
  by (simp add: addDB_tx_def insert_report_def update_host_def Let_def)

lemma host_snapshot_fields:
  "snapshot_of now data (host_snapshot now data h)
   \<and> host_id (host_snapshot now data h) = host_id h
   \<and> host_fqdn (host_snapshot now data h) = host_fqdn h
   \<and> pinned (host_snapshot now data h) = pinned h"
  by (simp add: host_snapshot_def snapshot_of_def)

lemma snapshot_all:
  assumes "h \<in> set (sql_update (\<lambda>h. host_id h = hid) (host_snapshot now data) hs)"
    and "host_id h = hid"
  shows "snapshot_of now data h"
proof -
  from assms(1) obtain r where r: "r \<in> set hs"
    and h: "h = (if host_id r = hid then host_snapshot now data r else r)"
    unfolding sql_update_def by auto
  show ?thesis
  proof (cases "host_id r = hid")
    case True
    then show ?thesis using h host_snapshot_fields [of now data r] by simp
  next
    case False
    then show ?thesis using h assms(2) by simp
  qed
qed

lemma snapshot_row:
  assumes "h \<in> set hs" and "host_id h = hid" and "host_fqdn h = f"
  shows "\<exists>h' \<in> set (sql_update (\<lambda>h. host_id h = hid) (host_snapshot now data) hs).
           host_fqdn h' = f \<and> host_id h' = hid"
proof -
  have "(if host_id h = hid then host_snapshot now data h else h)
          \<in> (\<lambda>r. if host_id r = hid then host_snapshot now data r else r) ` set hs"
    using assms(1) by (rule imageI)
  then have "host_snapshot now data h
          \<in> set (sql_update (\<lambda>h. host_id h = hid) (host_snapshot now data) hs)"
    using assms(2) by (simp add: sql_update_def)
  moreover have "host_fqdn (host_snapshot now data h) = f" "host_id (host_snapshot now data h) = hid"
    using assms(2,3) host_snapshot_fields [of now data h] by simp_all
  ultimately show ?thesis by blast
qed

lemma addDB_via_lookup:
  assumes "getHostId (Fqdn data) (Some s) = Inr hid"
  shows "addDB fl dateOf now data p (Some s) = addDB_from_lookup fl dateOf now data p hid (Some s)"
  using assms by (simp add: addDB_def)

lemma addDB_raced_id:
  "addDB_raced fl dateOf now data p (\<lambda>db. db) db = addDB fl dateOf now data p db"
  by (simp add: addDB_raced_def addDB_def)

text \<open>
  The states committed from the commit of the transaction onwards show the tables of the
  transaction: the report row is there only together with the snapshot.
\<close>

lemma tx_tail_visible:
  assumes s1: "reports s1 = reports s" "reports_seq s1 = reports_seq s"
    and row: "\<exists>h \<in> set (hosts s1). host_fqdn h = Fqdn data \<and> host_id h = hid"
    and c: "c = Some (addDB_tx fl now data p hid s1)
            \<or> c \<in> set (updateHistory_commits fl dateOf now (State data)
                         (Some (addDB_tx fl now data p hid s1)))"
  shows "\<exists>c'. c = Some c'
           \<and> (reports c' = reports s
              \<or> (\<exists>hid. reports c' = reports s @
                          [new_report (next_key (reports_seq s) (map report_id (reports s)))
                             now data p hid]
                   \<and> (\<not> exec_host_fails fl \<longrightarrow>
                         (\<exists>h \<in> set (hosts c'). host_fqdn h = Fqdn data \<and> host_id h = hid)
                       \<and> (\<forall>h \<in> set (hosts c'). host_id h = hid \<longrightarrow> snapshot_of now data h))))"
proof -
  let ?t = "addDB_tx fl now data p hid s1"
  let ?row = "new_report (next_key (reports_seq s) (map report_id (reports s))) now data p hid"
  from c obtain c' where c': "c = Some c'" "hosts c' = hosts ?t" "reports c' = reports ?t"
    using updateHistory_commits_tables [of c fl dateOf now "State data" ?t] by blast
  show ?thesis
  proof (cases "reports ?t = reports s")
    case True
    then show ?thesis using c' by simp
  next
    case False
    then have r: "reports c' = reports s @ [?row]"
      and h: "\<not> exec_host_fails fl \<longrightarrow>
                hosts c' = sql_update (\<lambda>h. host_id h = hid) (host_snapshot now data) (hosts s1)"
      using addDB_tx_visible [of fl now data p hid s1] s1 c' by auto
    have snap: "\<not> exec_host_fails fl \<longrightarrow>
                  (\<exists>h \<in> set (hosts c'). host_fqdn h = Fqdn data \<and> host_id h = hid)
                \<and> (\<forall>h \<in> set (hosts c'). host_id h = hid \<longrightarrow> snapshot_of now data h)"
    proof
      assume "\<not> exec_host_fails fl"
      then have ht: "hosts c' = sql_update (\<lambda>h. host_id h = hid) (host_snapshot now data) (hosts s1)"
        using h by simp
      from row obtain h0 where "h0 \<in> set (hosts s1)" "host_fqdn h0 = Fqdn data" "host_id h0 = hid"
        by blast
      then have a: "\<exists>h \<in> set (hosts c'). host_fqdn h = Fqdn data \<and> host_id h = hid"
        using snapshot_row [of h0 "hosts s1" hid "Fqdn data" now data] by (simp add: ht)
      have b: "\<forall>h \<in> set (hosts c'). host_id h = hid \<longrightarrow> snapshot_of now data h"
        unfolding ht using snapshot_all by blast
      show "(\<exists>h \<in> set (hosts c'). host_fqdn h = Fqdn data \<and> host_id h = hid)
            \<and> (\<forall>h \<in> set (hosts c'). host_id h = hid \<longrightarrow> snapshot_of now data h)"
        using a b by (rule conjI)
    qed
    have "\<exists>hid. reports c' = reports s @
                    [new_report (next_key (reports_seq s) (map report_id (reports s)))
                       now data p hid]
            \<and> (\<not> exec_host_fails fl \<longrightarrow>
                  (\<exists>h \<in> set (hosts c'). host_fqdn h = Fqdn data \<and> host_id h = hid)
                \<and> (\<forall>h \<in> set (hosts c'). host_id h = hid \<longrightarrow> snapshot_of now data h))"
      using r snap by (intro exI [of _ hid] conjI)
    then show ?thesis using c'(1) by blast
  qed
qed

lemma addDB_commits_members_known:
  assumes "getHostId (Fqdn data) (Some s) = Inr hid" and "hid \<noteq> 0"
    and "c \<in> set (addDB_commits fl dateOf now data p (Some s))"
  shows "c = Some s \<or> c = Some (addDB_tx fl now data p hid s)
         \<or> c \<in> set (updateHistory_commits fl dateOf now (State data)
                      (Some (addDB_tx fl now data p hid s)))"
  using assms by (auto simp: addDB_commits_def split: if_splits)

lemma addDB_commits_members_new:
  assumes "Fqdn data \<notin> set (map host_fqdn (hosts s))"
    and "c \<in> set (addDB_commits fl dateOf now data p (Some s))"
  shows "c = Some s \<or> c = Some (insert_host (Fqdn data) s)
         \<or> c = Some (addDB_tx fl now data p (next_key (hosts_seq s) (map host_id (hosts s)))
                       (insert_host (Fqdn data) s))
         \<or> c \<in> set (updateHistory_commits fl dateOf now (State data)
                      (Some (addDB_tx fl now data p (next_key (hosts_seq s) (map host_id (hosts s)))
                               (insert_host (Fqdn data) s))))"
  using assms getHostId_absent [OF assms(1)] getHostId_inserted [OF assms(1)]
  by (auto simp: addDB_commits_def createHost_def split: if_splits)

lemma addDB_commits_clash:
  assumes "getHostId (Fqdn data) (Some s) = Inr 0" and "Fqdn data \<in> set (map host_fqdn (hosts s))"
  shows "addDB_commits fl dateOf now data p (Some s) = [Some s]"
  using assms by (simp add: addDB_commits_def createHost_def)

lemma insert_host_tables:
  "reports (insert_host fqdn s) = reports s \<and> reports_seq (insert_host fqdn s) = reports_seq s
   \<and> history (insert_host fqdn s) = history s
   \<and> hosts (insert_host fqdn s)
       = hosts s @ [new_host (next_key (hosts_seq s) (map host_id (hosts s))) fqdn]"
  by (simp add: insert_host_def Let_def)

lemma addDB_commits_visible:
  assumes "c \<in> set (addDB_commits fl dateOf now data p (Some s))"
  shows "\<exists>c'. c = Some c'
           \<and> (reports c' = reports s
              \<or> (\<exists>hid. reports c' = reports s @
                          [new_report (next_key (reports_seq s) (map report_id (reports s)))
                             now data p hid]
                   \<and> (\<not> exec_host_fails fl \<longrightarrow>
                         (\<exists>h \<in> set (hosts c'). host_fqdn h = Fqdn data \<and> host_id h = hid)
                       \<and> (\<forall>h \<in> set (hosts c'). host_id h = hid \<longrightarrow> snapshot_of now data h))))"
proof -
  obtain hid0 where look: "getHostId (Fqdn data) (Some s) = Inr hid0"
    using getHostId_open by blast
  consider (known) "hid0 \<noteq> 0"
    | (clash) "hid0 = 0" "Fqdn data \<in> set (map host_fqdn (hosts s))"
    | (new) "hid0 = 0" "Fqdn data \<notin> set (map host_fqdn (hosts s))"
    by blast
  then show ?thesis
  proof cases
    case known
    have inl: "Fqdn data \<in> set (map host_fqdn (hosts s))"
      using look known getHostId_absent [of "Fqdn data" s] by auto
    have row: "\<exists>h \<in> set (hosts s). host_fqdn h = Fqdn data \<and> host_id h = hid0"
      using look inl by (rule getHostId_row)
    from addDB_commits_members_known [OF look known assms]
    have "c = Some s
          \<or> (c = Some (addDB_tx fl now data p hid0 s)
             \<or> c \<in> set (updateHistory_commits fl dateOf now (State data)
                          (Some (addDB_tx fl now data p hid0 s))))"
      by blast
    then show ?thesis
    proof
      assume "c = Some s" then show ?thesis by simp
    next
      assume "c = Some (addDB_tx fl now data p hid0 s)
             \<or> c \<in> set (updateHistory_commits fl dateOf now (State data)
                          (Some (addDB_tx fl now data p hid0 s)))"
      then show ?thesis by (rule tx_tail_visible [OF refl refl row])
    qed
  next
    case clash
    then have "c = Some s" using assms look addDB_commits_clash [of data s fl dateOf now p] by simp
    then show ?thesis by simp
  next
    case new
    let ?k = "next_key (hosts_seq s) (map host_id (hosts s))"
    let ?s1 = "insert_host (Fqdn data) s"
    have s1: "reports ?s1 = reports s" "reports_seq ?s1 = reports_seq s"
      using insert_host_tables [of "Fqdn data" s] by simp_all
    have row: "\<exists>h \<in> set (hosts ?s1). host_fqdn h = Fqdn data \<and> host_id h = ?k"
      by (simp add: insert_host_def Let_def new_host_def)
    from addDB_commits_members_new [OF new(2) assms]
    have "(c = Some s \<or> c = Some ?s1)
          \<or> (c = Some (addDB_tx fl now data p ?k ?s1)
             \<or> c \<in> set (updateHistory_commits fl dateOf now (State data)
                          (Some (addDB_tx fl now data p ?k ?s1))))"
      by blast
    then show ?thesis
    proof
      assume "c = Some s \<or> c = Some ?s1" then show ?thesis using s1 by auto
    next
      assume "c = Some (addDB_tx fl now data p ?k ?s1)
             \<or> c \<in> set (updateHistory_commits fl dateOf now (State data)
                          (Some (addDB_tx fl now data p ?k ?s1)))"
      then show ?thesis by (rule tx_tail_visible [OF s1 row])
    qed
  qed
qed

text \<open>
  Every error return of \<^verbatim>\<open>addDB\<close> on an open store comes before the commit of the
  transaction: the reports and the history are as they were, and the hosts are too, but
  for the row that \<^verbatim>\<open>createHost\<close> committed.
\<close>

lemma addDB_error_store:
  assumes "fst (addDB fl dateOf now data p (Some s)) \<noteq> None"
  shows "\<exists>s'. snd (addDB fl dateOf now data p (Some s)) = Some s'
           \<and> reports s' = reports s \<and> history s' = history s
           \<and> (hosts s' = hosts s
              \<or> hosts s' = hosts s @
                  [new_host (next_key (hosts_seq s) (map host_id (hosts s))) (Fqdn data)])"
proof -
  obtain hid0 where look: "getHostId (Fqdn data) (Some s) = Inr hid0"
    using getHostId_open by blast
  have via: "addDB fl dateOf now data p (Some s) = addDB_from_lookup fl dateOf now data p hid0 (Some s)"
    using look by (rule addDB_via_lookup)
  consider (known) "hid0 \<noteq> 0"
    | (clash) "hid0 = 0" "Fqdn data \<in> set (map host_fqdn (hosts s))"
    | (new) "hid0 = 0" "Fqdn data \<notin> set (map host_fqdn (hosts s))"
    by blast
  then show ?thesis
  proof cases
    case known
    then have "snd (addDB fl dateOf now data p (Some s)) = Some s"
      using assms via by (auto simp: addDB_from_lookup_def split: if_splits)
    then show ?thesis by simp
  next
    case clash
    then have "snd (addDB fl dateOf now data p (Some s)) = Some s"
      using via addDB_clash [of data s fl dateOf now p] by simp
    then show ?thesis by simp
  next
    case new
    then have "snd (addDB fl dateOf now data p (Some s)) = Some (insert_host (Fqdn data) s)"
      using assms via getHostId_inserted [OF new(2)]
      by (auto simp: addDB_from_lookup_def createHost_def split: if_splits)
    then show ?thesis using insert_host_tables [of "Fqdn data" s] by simp
  qed
qed

text \<open>
  A call in which no statement is refused and that returns nil: the states it commits and
  the state it ends in.
\<close>

lemma addDB_success_cases:
  assumes ok: "fst (addDB no_faults dateOf now data p (Some s)) = None"
  shows "\<exists>hid s1 pre.
           reports s1 = reports s \<and> reports_seq s1 = reports_seq s \<and> history s1 = history s
         \<and> (\<exists>h \<in> set (hosts s1). host_fqdn h = Fqdn data \<and> host_id h = hid)
         \<and> addDB no_faults dateOf now data p (Some s)
             = (None, snd (updateHistory dateOf now (State data)
                             (Some (addDB_tx no_faults now data p hid s1))))
         \<and> addDB_commits no_faults dateOf now data p (Some s)
             = pre @ [Some (addDB_tx no_faults now data p hid s1)]
               @ updateHistory_commits no_faults dateOf now (State data)
                   (Some (addDB_tx no_faults now data p hid s1))
         \<and> (\<forall>c \<in> set pre. \<exists>c'. c = Some c' \<and> reports c' = reports s)"
proof -
  obtain hid0 where look: "getHostId (Fqdn data) (Some s) = Inr hid0"
    using getHostId_open by blast
  have via: "addDB no_faults dateOf now data p (Some s)
               = addDB_from_lookup no_faults dateOf now data p hid0 (Some s)"
    using look by (rule addDB_via_lookup)
  consider (known) "hid0 \<noteq> 0"
    | (clash) "hid0 = 0" "Fqdn data \<in> set (map host_fqdn (hosts s))"
    | (new) "hid0 = 0" "Fqdn data \<notin> set (map host_fqdn (hosts s))"
    by blast
  then show ?thesis
  proof cases
    case known
    let ?t = "addDB_tx no_faults now data p hid0 s"
    have inl: "Fqdn data \<in> set (map host_fqdn (hosts s))"
      using look known getHostId_absent [of "Fqdn data" s] by auto
    have row: "\<exists>h \<in> set (hosts s). host_fqdn h = Fqdn data \<and> host_id h = hid0"
      using look inl by (rule getHostId_row)
    have run: "addDB no_faults dateOf now data p (Some s)
                = (None, snd (updateHistory dateOf now (State data) (Some ?t)))"
      using via addDB_known_host [OF known] by simp
    have com: "addDB_commits no_faults dateOf now data p (Some s)
                = [Some s] @ [Some ?t]
                  @ updateHistory_commits no_faults dateOf now (State data) (Some ?t)"
      using look known by (simp add: addDB_commits_def no_faults_fields)
    have pre: "\<forall>c \<in> set [Some s]. \<exists>c'. c = Some c' \<and> reports c' = reports s" by simp
    show ?thesis
      using row run com pre by (intro exI [of _ hid0] exI [of _ s] exI [of _ "[Some s]"]) simp
  next
    case clash
    then have "fst (addDB no_faults dateOf now data p (Some s)) \<noteq> None"
      using via addDB_clash [of data s no_faults dateOf now p] by simp
    then show ?thesis using ok by simp
  next
    case new
    let ?k = "next_key (hosts_seq s) (map host_id (hosts s))"
    let ?s1 = "insert_host (Fqdn data) s"
    let ?t = "addDB_tx no_faults now data p ?k ?s1"
    have s1: "reports ?s1 = reports s" "reports_seq ?s1 = reports_seq s" "history ?s1 = history s"
      using insert_host_tables [of "Fqdn data" s] by simp_all
    have row: "\<exists>h \<in> set (hosts ?s1). host_fqdn h = Fqdn data \<and> host_id h = ?k"
      by (simp add: insert_host_def Let_def new_host_def)
    have run: "addDB no_faults dateOf now data p (Some s)
                = (None, snd (updateHistory dateOf now (State data) (Some ?t)))"
      using via new addDB_new_host [OF new(2)] by simp
    have com: "addDB_commits no_faults dateOf now data p (Some s)
                = [Some s, Some ?s1] @ [Some ?t]
                  @ updateHistory_commits no_faults dateOf now (State data) (Some ?t)"
      using getHostId_absent [OF new(2)] getHostId_inserted [OF new(2)] new(2)
      by (simp add: addDB_commits_def createHost_def no_faults_fields)
    have pre: "\<forall>c \<in> set [Some s, Some ?s1]. \<exists>c'. c = Some c' \<and> reports c' = reports s"
      using s1 by simp
    show ?thesis
      using s1 row run com pre
      by (intro exI [of _ ?k] exI [of _ ?s1] exI [of _ "[Some s, Some ?s1]"]) simp
  qed
qed

lemma count_first_split:
  assumes "date r = d" and "d \<notin> date ` set us"
  shows "count_first d st (us @ r # vs) = us @ count_state st r # vs"
  using assms by (induction us) auto

lemma add_counters_count: "add_counters (state_increments st) r = count_state st r"
  by (simp add: add_counters_def state_increments_def count_state_def)

text \<open>
  The run of \<^verbatim>\<open>updateHistory\<close> without refusals counts the report once: on the first
  bucket of the day when there is one, on a new bucket otherwise.
\<close>

lemma updateHistory_counted:
  assumes "distinct (map hist_id (history t))"
  shows "\<exists>t'. snd (updateHistory dateOf epoch st (Some t)) = Some t'
           \<and> reports t' = reports t \<and> hosts t' = hosts t
           \<and> (dateOf epoch \<in> date ` set (history t)
                \<longrightarrow> history t' = count_first (dateOf epoch) st (history t))
           \<and> (dateOf epoch \<notin> date ` set (history t)
                \<longrightarrow> (\<exists>k. k \<notin> hist_id ` set (history t)
                      \<and> history t' = history t @
                          [count_state st \<lparr>hist_id = k, date = dateOf epoch, failed = 0,
                                           changed = 0, unchanged = 0\<rparr>]))"
proof (cases "dateOf epoch \<in> date ` set (history t)")
  case True
  then have "\<exists>x \<in> set (history t). date x = dateOf epoch" by auto
  then obtain us r vs where dec: "history t = us @ r # vs" and dr: "date r = dateOf epoch"
    and first: "\<forall>u \<in> set us. date u \<noteq> dateOf epoch"
    using split_list_first_prop [of "history t" "\<lambda>x. date x = dateOf epoch"] by blast
  have nin: "dateOf epoch \<notin> date ` set us" using first by auto
  have run: "updateHistory dateOf epoch st (Some t)
               = (None, Some (t\<lparr>history := us @ add_counters (state_increments st) r # vs\<rparr>))"
    using assms dec dr nin by (rule updateHistory_existing)
  have "count_first (dateOf epoch) st (history t) = us @ count_state st r # vs"
    using count_first_split [OF dr nin] dec by simp
  then show ?thesis using run True by (simp add: add_counters_count)
next
  case False
  let ?k = "next_key (history_seq t) (map hist_id (history t))"
  have run: "updateHistory dateOf epoch st (Some t)
      = (None, Some (t\<lparr>history := history t @
                 [add_counters (state_increments st)
                    \<lparr>hist_id = ?k, date = dateOf epoch, failed = 0, changed = 0, unchanged = 0\<rparr>],
               history_seq := ?k\<rparr>))"
    using False by (rule updateHistory_fresh)
  have fresh: "?k \<notin> hist_id ` set (history t)"
    using next_key_fresh [of "history_seq t" "map hist_id (history t)"] by simp
  show ?thesis using run False fresh by (auto simp: add_counters_count)
qed

lemma addDB_recorded:
  assumes ok: "fst (addDB no_faults dateOf now data p (Some s)) = None"
    and d: "distinct (map hist_id (history s))"
  shows "\<exists>hid s'. snd (addDB no_faults dateOf now data p (Some s)) = Some s'
           \<and> reports s' = reports s @
                [new_report (next_key (reports_seq s) (map report_id (reports s))) now data p hid]
           \<and> (\<exists>h \<in> set (hosts s'). host_fqdn h = Fqdn data \<and> host_id h = hid)
           \<and> (\<forall>h \<in> set (hosts s'). host_id h = hid \<longrightarrow> snapshot_of now data h)
           \<and> (dateOf now \<in> date ` set (history s)
                \<longrightarrow> history s' = count_first (dateOf now) (State data) (history s))
           \<and> (dateOf now \<notin> date ` set (history s)
                \<longrightarrow> (\<exists>k. k \<notin> hist_id ` set (history s)
                      \<and> history s' = history s @
                          [count_state (State data)
                             \<lparr>hist_id = k, date = dateOf now, failed = 0, changed = 0,
                              unchanged = 0\<rparr>]))"
proof -
  from addDB_success_cases [OF ok]
  obtain hid s1 where s1: "reports s1 = reports s" "reports_seq s1 = reports_seq s"
      "history s1 = history s"
    and row: "\<exists>h \<in> set (hosts s1). host_fqdn h = Fqdn data \<and> host_id h = hid"
    and run: "addDB no_faults dateOf now data p (Some s)
             = (None, snd (updateHistory dateOf now (State data)
                             (Some (addDB_tx no_faults now data p hid s1))))"
    by blast
  let ?t = "addDB_tx no_faults now data p hid s1"
  have rt: "reports ?t = reports s @
          [new_report (next_key (reports_seq s) (map report_id (reports s))) now data p hid]"
    using addDB_tx_tables [of now data p hid s1] s1 by simp
  have ht: "hosts ?t = sql_update (\<lambda>h. host_id h = hid) (host_snapshot now data) (hosts s1)"
    using addDB_tx_tables [of now data p hid s1] by simp
  have hy: "history ?t = history s"
    using addDB_tx_tables [of now data p hid s1] s1 by simp
  from row obtain h0 where "h0 \<in> set (hosts s1)" "host_fqdn h0 = Fqdn data" "host_id h0 = hid"
    by blast
  then have a: "\<exists>h \<in> set (hosts ?t). host_fqdn h = Fqdn data \<and> host_id h = hid"
    using snapshot_row [of h0 "hosts s1" hid "Fqdn data" now data] by (simp add: ht)
  have b: "\<forall>h \<in> set (hosts ?t). host_id h = hid \<longrightarrow> snapshot_of now data h"
    unfolding ht using snapshot_all by blast
  have "distinct (map hist_id (history ?t))" using d hy by simp
  from updateHistory_counted [OF this, of dateOf now "State data"]
  obtain t' where t': "snd (updateHistory dateOf now (State data) (Some ?t)) = Some t'"
    and keep: "reports t' = reports ?t" "hosts t' = hosts ?t"
    and ex: "dateOf now \<in> date ` set (history ?t)
                \<longrightarrow> history t' = count_first (dateOf now) (State data) (history ?t)"
    and fr: "dateOf now \<notin> date ` set (history ?t)
                \<longrightarrow> (\<exists>k. k \<notin> hist_id ` set (history ?t)
                      \<and> history t' = history ?t @
                          [count_state (State data)
                             \<lparr>hist_id = k, date = dateOf now, failed = 0, changed = 0,
                              unchanged = 0\<rparr>])"
    by blast
  have fin: "snd (addDB no_faults dateOf now data p (Some s)) = Some t'" using run t' by simp
  show ?thesis
    using fin rt a b ex fr keep hy by (intro exI [of _ hid] exI [of _ t']) simp
qed

text \<open>
  Claim C1, as the code has it. The INSERT of the report row and the UPDATE of the host
  snapshot are statements of one transaction and become visible with its commit: in every
  state that a call of \<^verbatim>\<open>addDB\<close> commits, whatever call the engine refuses, the new
  report row is there only together with the snapshot on the host row of its fqdn, given
  that the UPDATE was executed. The history bucket is not part of that transaction. When
  \<^verbatim>\<open>addDB\<close> returns an error, the reports and the history are as before, and the
  hosts are too, but for the row created for an unseen fqdn, which stays. When no call is
  refused and \<^verbatim>\<open>addDB\<close> returns nil, the state committed by the transaction has the
  report row and the snapshot with the old history table, the final state is the one that
  \<^verbatim>\<open>updateHistory\<close> reaches from it with statements of its own, and that state has the
  report row, the snapshot and the report counted once in the bucket of the day (bucket
  keys distinct, as a primary key is).
\<close>

theorem addDB_commits_report_with_host:
  "(\<forall>c \<in> set (addDB_commits fl dateOf now data p (Some s)).
       \<exists>c'. c = Some c'
         \<and> (reports c' = reports s
            \<or> (\<exists>hid. reports c' = reports s @
                        [new_report (next_key (reports_seq s) (map report_id (reports s)))
                           now data p hid]
                 \<and> (\<not> exec_host_fails fl \<longrightarrow>
                       (\<exists>h \<in> set (hosts c'). host_fqdn h = Fqdn data \<and> host_id h = hid)
                     \<and> (\<forall>h \<in> set (hosts c'). host_id h = hid \<longrightarrow> snapshot_of now data h)))))
   \<and> (fst (addDB fl dateOf now data p (Some s)) \<noteq> None \<longrightarrow>
        (\<exists>s'. snd (addDB fl dateOf now data p (Some s)) = Some s'
           \<and> reports s' = reports s \<and> history s' = history s
           \<and> (hosts s' = hosts s
              \<or> hosts s' = hosts s @
                  [new_host (next_key (hosts_seq s) (map host_id (hosts s))) (Fqdn data)])))
   \<and> (fst (addDB no_faults dateOf now data p (Some s)) = None \<longrightarrow>
        (\<exists>hid t.
           Some t \<in> set (addDB_commits no_faults dateOf now data p (Some s))
           \<and> reports t = reports s @
                [new_report (next_key (reports_seq s) (map report_id (reports s))) now data p hid]
           \<and> (\<exists>h \<in> set (hosts t). host_fqdn h = Fqdn data \<and> host_id h = hid)
           \<and> (\<forall>h \<in> set (hosts t). host_id h = hid \<longrightarrow> snapshot_of now data h)
           \<and> history t = history s
           \<and> snd (addDB no_faults dateOf now data p (Some s))
               = snd (updateHistory dateOf now (State data) (Some t))
           \<and> last (addDB_commits no_faults dateOf now data p (Some s))
               = snd (addDB no_faults dateOf now data p (Some s))
           \<and> (distinct (map hist_id (history s)) \<longrightarrow>
                (\<exists>s'. snd (addDB no_faults dateOf now data p (Some s)) = Some s'
                   \<and> reports s' = reports t \<and> hosts s' = hosts t
                   \<and> (dateOf now \<in> date ` set (history s)
                        \<longrightarrow> history s' = count_first (dateOf now) (State data) (history s))
                   \<and> (dateOf now \<notin> date ` set (history s)
                        \<longrightarrow> (\<exists>k. k \<notin> hist_id ` set (history s)
                              \<and> history s' = history s @
                                  [count_state (State data)
                                     \<lparr>hist_id = k, date = dateOf now, failed = 0, changed = 0,
                                      unchanged = 0\<rparr>]))))))"
proof (intro conjI ballI impI)
  fix c assume "c \<in> set (addDB_commits fl dateOf now data p (Some s))"
  then show "\<exists>c'. c = Some c'
         \<and> (reports c' = reports s
            \<or> (\<exists>hid. reports c' = reports s @
                        [new_report (next_key (reports_seq s) (map report_id (reports s)))
                           now data p hid]
                 \<and> (\<not> exec_host_fails fl \<longrightarrow>
                       (\<exists>h \<in> set (hosts c'). host_fqdn h = Fqdn data \<and> host_id h = hid)
                     \<and> (\<forall>h \<in> set (hosts c'). host_id h = hid \<longrightarrow> snapshot_of now data h))))"
    by (rule addDB_commits_visible)
next
  assume "fst (addDB fl dateOf now data p (Some s)) \<noteq> None"
  then show "\<exists>s'. snd (addDB fl dateOf now data p (Some s)) = Some s'
           \<and> reports s' = reports s \<and> history s' = history s
           \<and> (hosts s' = hosts s
              \<or> hosts s' = hosts s @
                  [new_host (next_key (hosts_seq s) (map host_id (hosts s))) (Fqdn data)])"
    by (rule addDB_error_store)
next
  assume ok: "fst (addDB no_faults dateOf now data p (Some s)) = None"
  from addDB_success_cases [OF ok]
  obtain hid s1 pre where s1: "reports s1 = reports s" "reports_seq s1 = reports_seq s"
      "history s1 = history s"
    and row: "\<exists>h \<in> set (hosts s1). host_fqdn h = Fqdn data \<and> host_id h = hid"
    and run: "addDB no_faults dateOf now data p (Some s)
             = (None, snd (updateHistory dateOf now (State data)
                             (Some (addDB_tx no_faults now data p hid s1))))"
    and com: "addDB_commits no_faults dateOf now data p (Some s)
             = pre @ [Some (addDB_tx no_faults now data p hid s1)]
               @ updateHistory_commits no_faults dateOf now (State data)
                   (Some (addDB_tx no_faults now data p hid s1))"
    by blast
  let ?t = "addDB_tx no_faults now data p hid s1"
  have c1: "Some ?t \<in> set (addDB_commits no_faults dateOf now data p (Some s))" using com by simp
  have c2: "reports ?t = reports s @
          [new_report (next_key (reports_seq s) (map report_id (reports s))) now data p hid]"
    using addDB_tx_tables [of now data p hid s1] s1 by simp
  have ht: "hosts ?t = sql_update (\<lambda>h. host_id h = hid) (host_snapshot now data) (hosts s1)"
    using addDB_tx_tables [of now data p hid s1] by simp
  from row obtain h0 where "h0 \<in> set (hosts s1)" "host_fqdn h0 = Fqdn data" "host_id h0 = hid"
    by blast
  then have c3: "\<exists>h \<in> set (hosts ?t). host_fqdn h = Fqdn data \<and> host_id h = hid"
    using snapshot_row [of h0 "hosts s1" hid "Fqdn data" now data] by (simp add: ht)
  have c4: "\<forall>h \<in> set (hosts ?t). host_id h = hid \<longrightarrow> snapshot_of now data h"
    unfolding ht using snapshot_all by blast
  have c5: "history ?t = history s"
    using addDB_tx_tables [of now data p hid s1] s1 by simp
  have c6: "snd (addDB no_faults dateOf now data p (Some s))
         = snd (updateHistory dateOf now (State data) (Some ?t))" using run by simp
  have ne: "updateHistory_commits no_faults dateOf now (State data) (Some ?t) \<noteq> []"
    by (rule updateHistory_commits_nonempty)
  have c7: "last (addDB_commits no_faults dateOf now data p (Some s))
              = snd (addDB no_faults dateOf now data p (Some s))"
    using com ne c6 updateHistory_commits_last [of dateOf now "State data" ?t] by simp
  have c8: "distinct (map hist_id (history s)) \<longrightarrow>
                (\<exists>s'. snd (addDB no_faults dateOf now data p (Some s)) = Some s'
                   \<and> reports s' = reports ?t \<and> hosts s' = hosts ?t
                   \<and> (dateOf now \<in> date ` set (history s)
                        \<longrightarrow> history s' = count_first (dateOf now) (State data) (history s))
                   \<and> (dateOf now \<notin> date ` set (history s)
                        \<longrightarrow> (\<exists>k. k \<notin> hist_id ` set (history s)
                              \<and> history s' = history s @
                                  [count_state (State data)
                                     \<lparr>hist_id = k, date = dateOf now, failed = 0, changed = 0,
                                      unchanged = 0\<rparr>])))"
  proof
    assume "distinct (map hist_id (history s))"
    then have "distinct (map hist_id (history ?t))" using c5 by simp
    from updateHistory_counted [OF this, of dateOf now "State data"]
    show "\<exists>s'. snd (addDB no_faults dateOf now data p (Some s)) = Some s'
                   \<and> reports s' = reports ?t \<and> hosts s' = hosts ?t
                   \<and> (dateOf now \<in> date ` set (history s)
                        \<longrightarrow> history s' = count_first (dateOf now) (State data) (history s))
                   \<and> (dateOf now \<notin> date ` set (history s)
                        \<longrightarrow> (\<exists>k. k \<notin> hist_id ` set (history s)
                              \<and> history s' = history s @
                                  [count_state (State data)
                                     \<lparr>hist_id = k, date = dateOf now, failed = 0, changed = 0,
                                      unchanged = 0\<rparr>]))"
      using c6 c5 by simp
  qed
  show "\<exists>hid t.
           Some t \<in> set (addDB_commits no_faults dateOf now data p (Some s))
           \<and> reports t = reports s @
                [new_report (next_key (reports_seq s) (map report_id (reports s))) now data p hid]
           \<and> (\<exists>h \<in> set (hosts t). host_fqdn h = Fqdn data \<and> host_id h = hid)
           \<and> (\<forall>h \<in> set (hosts t). host_id h = hid \<longrightarrow> snapshot_of now data h)
           \<and> history t = history s
           \<and> snd (addDB no_faults dateOf now data p (Some s))
               = snd (updateHistory dateOf now (State data) (Some t))
           \<and> last (addDB_commits no_faults dateOf now data p (Some s))
               = snd (addDB no_faults dateOf now data p (Some s))
           \<and> (distinct (map hist_id (history s)) \<longrightarrow>
                (\<exists>s'. snd (addDB no_faults dateOf now data p (Some s)) = Some s'
                   \<and> reports s' = reports t \<and> hosts s' = hosts t
                   \<and> (dateOf now \<in> date ` set (history s)
                        \<longrightarrow> history s' = count_first (dateOf now) (State data) (history s))
                   \<and> (dateOf now \<notin> date ` set (history s)
                        \<longrightarrow> (\<exists>k. k \<notin> hist_id ` set (history s)
                              \<and> history s' = history s @
                                  [count_state (State data)
                                     \<lparr>hist_id = k, date = dateOf now, failed = 0, changed = 0,
                                      unchanged = 0\<rparr>]))))"
    using c1 c2 c3 c4 c5 c6 c7 c8 by (intro exI [of _ hid] exI [of _ ?t] conjI)
qed

text \<open>
  A first report of \<open>web01\<close> on an empty store, recorded without a refusal; the same call
  when \<^verbatim>\<open>db.Begin\<close> is refused returns the error after the host row was created; and
  the same call when the UPDATE of the host row is refused.
\<close>

theorem addDB_commits_report_with_host_witness:
  "fst (addDB no_faults ex_dateOf 1000 web01_report [''web01'', ''h1''] (Some empty_store)) = None
   \<and> distinct (map hist_id (history empty_store))
   \<and> ex_dateOf 1000 \<notin> date ` set (history empty_store)
   \<and> last (addDB_commits no_faults ex_dateOf 1000 web01_report [''web01'', ''h1'']
             (Some empty_store))
       = snd (addDB no_faults ex_dateOf 1000 web01_report [''web01'', ''h1''] (Some empty_store))
   \<and> map changed (history (the (snd (addDB no_faults ex_dateOf 1000 web01_report
                                         [''web01'', ''h1''] (Some empty_store))))) = [1]
   \<and> fst (addDB begin_fault ex_dateOf 1000 web01_report [''web01'', ''h1''] (Some empty_store))
       = Some (EngineFailure ''begin'')
   \<and> reports (the (snd (addDB begin_fault ex_dateOf 1000 web01_report [''web01'', ''h1'']
                           (Some empty_store)))) = []
   \<and> map host_fqdn (hosts (the (snd (addDB begin_fault ex_dateOf 1000 web01_report
                                        [''web01'', ''h1''] (Some empty_store))))) = [''web01'']
   \<and> \<not> exec_host_fails no_faults"
proof -
  let ?ok = "addDB no_faults ex_dateOf 1000 web01_report [''web01'', ''h1''] (Some empty_store)"
  let ?ko = "addDB begin_fault ex_dateOf 1000 web01_report [''web01'', ''h1''] (Some empty_store)"
  have ok: "fst ?ok = None" by code_simp
  have d: "distinct (map hist_id (history empty_store))" by code_simp
  have nd: "ex_dateOf 1000 \<notin> date ` set (history empty_store)" by (simp add: empty_store_def)
  have ch: "map changed (history (the (snd ?ok))) = [1]" by code_simp
  have ko: "fst ?ko = Some (EngineFailure ''begin'')" by code_simp
  have hs: "map host_fqdn (hosts (the (snd ?ko))) = [''web01'']" by code_simp
  have nf: "\<not> exec_host_fails no_faults" by (simp add: no_faults_def)
  note thm1 = addDB_commits_report_with_host
         [of no_faults ex_dateOf 1000 web01_report "[''web01'', ''h1'']" empty_store]
  note thm2 = addDB_commits_report_with_host
         [of begin_fault ex_dateOf 1000 web01_report "[''web01'', ''h1'']" empty_store]
  from thm1 ok
  have a: "last (addDB_commits no_faults ex_dateOf 1000 web01_report [''web01'', ''h1'']
             (Some empty_store)) = snd ?ok"
    by blast
  from thm2 ko
  have "\<exists>s'. snd ?ko = Some s' \<and> reports s' = reports empty_store" by auto
  then have b: "reports (the (snd ?ko)) = []" by (auto simp: empty_store_def)
  show ?thesis using ok d nd a ch ko b hs nf by blast
qed

text \<open>
  Claim C1 as stated fails: a call on the empty store in which nothing is refused commits
  five states, and the third one, committed by the transaction, has the report row of
  \<open>web01\<close> while the history table is still empty; the \<open>changed\<close> counter of the day
  becomes 1 only in the last state. And since the results of \<^verbatim>\<open>Exec\<close> and
  \<^verbatim>\<open>Commit\<close> are dropped: when the UPDATE of the host row is refused, the call returns
  nil with the report row recorded and the host row still at last-seen 0; when the commit
  is refused, it returns nil with no report row and the report counted in the history.
\<close>

theorem addDB_commits_counterexample:
  "fst (addDB no_faults ex_dateOf 1000 web01_report [''web01'', ''h1''] (Some empty_store)) = None
   \<and> length (addDB_commits no_faults ex_dateOf 1000 web01_report [''web01'', ''h1'']
               (Some empty_store)) = 5
   \<and> reports (the (addDB_commits no_faults ex_dateOf 1000 web01_report [''web01'', ''h1'']
                     (Some empty_store) ! 2))
        = [new_report 1 1000 web01_report [''web01'', ''h1''] 1]
   \<and> history (the (addDB_commits no_faults ex_dateOf 1000 web01_report [''web01'', ''h1'']
                     (Some empty_store) ! 2))
        = []
   \<and> map changed (history (the (snd (addDB no_faults ex_dateOf 1000 web01_report
        [''web01'', ''h1''] (Some empty_store))))) = [1]
   \<and> fst (addDB host_exec_fault ex_dateOf 1000 web01_report [''web01'', ''h1'']
            (Some empty_store)) = None
   \<and> reports (the (snd (addDB host_exec_fault ex_dateOf 1000 web01_report [''web01'', ''h1'']
                           (Some empty_store))))
        = [new_report 1 1000 web01_report [''web01'', ''h1''] 1]
   \<and> map last_seen (hosts (the (snd (addDB host_exec_fault ex_dateOf 1000 web01_report
                                        [''web01'', ''h1''] (Some empty_store))))) = [0]
   \<and> fst (addDB commit_fault ex_dateOf 1000 web01_report [''web01'', ''h1'']
            (Some empty_store)) = None
   \<and> reports (the (snd (addDB commit_fault ex_dateOf 1000 web01_report [''web01'', ''h1'']
                           (Some empty_store)))) = []
   \<and> map changed (history (the (snd (addDB commit_fault ex_dateOf 1000 web01_report
        [''web01'', ''h1''] (Some empty_store))))) = [1]"
  by code_simp

text \<open>
  Claim C5, as the code has it. When the lookup found no row for the fqdn and a row with
  that fqdn exists by the time of the create, the INSERT is refused by the uniqueness
  constraint and \<^verbatim>\<open>addDB\<close> returns that error: there is no fall-back to the update.
  The store stays as the other workflow left it: no report row, no snapshot update, no
  history increment. The return comes before \<^verbatim>\<open>db.Begin\<close>, so it is the same whatever
  later call the engine would refuse.
\<close>

theorem addDB_race_fails:
  assumes "getHostId (Fqdn data) (Some s) = Inr 0"
    and "other (Some s) = Some s'"
    and "Fqdn data \<in> set (map host_fqdn (hosts s'))"
  shows "addDB_raced fl dateOf now data p other (Some s)
           = (Some (UniqueConstraint ''hosts.fqdn''), Some s')"
  using assms addDB_clash [of data s' fl dateOf now p]
  by (simp add: addDB_raced_def)

text \<open>The other workflow creates the host row of \<open>web01\<close> between lookup and create.\<close>

theorem addDB_race_fails_witness:
  "getHostId (Fqdn web01_report) (Some empty_store) = Inr 0
   \<and> map_option (insert_host ''web01'') (Some empty_store) = Some (insert_host ''web01'' empty_store)
   \<and> Fqdn web01_report \<in> set (map host_fqdn (hosts (insert_host ''web01'' empty_store)))
   \<and> addDB_raced no_faults ex_dateOf 1000 web01_report [''web01'', ''h1'']
        (map_option (insert_host ''web01'')) (Some empty_store)
       = (Some (UniqueConstraint ''hosts.fqdn''), Some (insert_host ''web01'' empty_store))"
proof -
  have a: "getHostId (Fqdn web01_report) (Some empty_store) = Inr 0" by code_simp
  have b: "map_option (insert_host ''web01'') (Some empty_store)
             = Some (insert_host ''web01'' empty_store)" by simp
  have c: "Fqdn web01_report \<in> set (map host_fqdn (hosts (insert_host ''web01'' empty_store)))"
    by code_simp
  from addDB_race_fails [where other = "map_option (insert_host ''web01'')" and dateOf = ex_dateOf
        and now = 1000 and p = "[''web01'', ''h1'']" and fl = no_faults, OF a b c]
  show ?thesis using a b c by blast
qed

text \<open>
  Claim C5 as stated fails: in that race the ingestion returns the uniqueness error, the
  host row of \<open>web01\<close> keeps its empty state and last-seen 0, and no report row is
  recorded.
\<close>

theorem addDB_race_counterexample:
  "getHostId ''web01'' (Some empty_store) = Inr 0
   \<and> fst (addDB_raced no_faults ex_dateOf 1000 web01_report [''web01'', ''h1'']
            (map_option (insert_host ''web01'')) (Some empty_store))
       = Some (UniqueConstraint ''hosts.fqdn'')
   \<and> map host_state (hosts (the (snd (addDB_raced no_faults ex_dateOf 1000 web01_report
            [''web01'', ''h1''] (map_option (insert_host ''web01'')) (Some empty_store))))) = [[]]
   \<and> map last_seen (hosts (the (snd (addDB_raced no_faults ex_dateOf 1000 web01_report
            [''web01'', ''h1''] (map_option (insert_host ''web01'')) (Some empty_store))))) = [0]
   \<and> reports (the (snd (addDB_raced no_faults ex_dateOf 1000 web01_report [''web01'', ''h1'']
            (map_option (insert_host ''web01'')) (Some empty_store)))) = []"
  by code_simp

subsection \<open>Idempotent submission\<close>

text \<open>
  Resolving one more element: the result for a path follows from the result for its
  parent.
\<close>

lemma walk_snoc:
  "walk f d (xs @ [e]) =
     (case walk f d xs of
        StatOk Dir \<Rightarrow> (case node_at f (d @ xs @ [e]) of None \<Rightarrow> ENOENT | Some n \<Rightarrow> StatOk n)
      | StatOk (File c) \<Rightarrow> ENOTDIR
      | ENOENT \<Rightarrow> ENOENT
      | ENOTDIR \<Rightarrow> ENOTDIR)"
proof (induction xs arbitrary: d)
  case Nil
  show ?case by (simp split: option.splits node.splits)
next
  case (Cons x xs)
  show ?case using Cons.IH [of "d @ [x]"] by (simp split: option.splits node.splits)
qed

lemma Exists_parent: "Exists f (p @ [e]) \<Longrightarrow> Exists f p"
  by (auto simp: Exists_def Stat_def walk_snoc)

lemma Exists_Join: "Exists f (Join p e) \<Longrightarrow> Exists f p"
  by (auto simp: Join_def dest: Exists_parent split: if_splits)

lemma node_at_update: "d \<noteq> q \<Longrightarrow> node_at (AList.update q n f) d = node_at f d"
  by (simp add: node_at_def update_conv')

lemma walk_update_shorter:
  "length d + length xs < length q \<Longrightarrow> walk (AList.update q n f) d xs = walk f d xs"
proof (induction xs arbitrary: d)
  case Nil
  then have "d \<noteq> q" by auto
  then show ?case by (simp add: node_at_update)
next
  case (Cons x xs)
  then have "d \<noteq> q" by auto
  moreover have "walk (AList.update q n f) (d @ [x]) xs = walk f (d @ [x]) xs"
    using Cons.prems by (intro Cons.IH) simp
  ultimately show ?case by (simp add: node_at_update split: option.splits node.splits)
qed

lemma WriteFile_Stat:
  assumes "WriteFile f1 p content = Some f2"
  shows "Stat f2 p = StatOk (File content)"
proof -
  have nd: "\<not> is_dir f1 p" and pd: "is_dir f1 (butlast p)"
    and f2: "f2 = AList.update p (File content) f1"
    using assms by (auto simp: WriteFile_def split: if_splits)
  have ne: "p \<noteq> []" using nd by (auto simp: is_dir_def Stat_def node_at_def)
  have "walk f2 [] (butlast p) = walk f1 [] (butlast p)"
    unfolding f2 using ne by (intro walk_update_shorter) simp
  then have par: "walk f2 [] (butlast p) = StatOk Dir" using pd by (simp add: is_dir_def Stat_def)
  have np: "node_at f2 p = Some (File content)" using ne by (simp add: f2 node_at_def update_conv')
  show ?thesis
    using walk_snoc [of f2 "[]" "butlast p" "last p"] ne par np by (simp add: Stat_def)
qed

lemma WriteFile_exists: "WriteFile f1 p content = Some f2 \<Longrightarrow> Exists f2 p"
  using WriteFile_Stat [of f1 p content f2] by (simp add: Exists_def)

lemma duplicate_not_host: "duplicate_body \<noteq> host_body fqdn"
  by (simp add: duplicate_body_def host_body_def)

lemma handler_duplicate:
  assumes "parse content = Inr report"
    and "Exists (w_files w) (Join (Join prefix (Fqdn report)) (Hash report))"
  shows "ReportSubmissionHandler fl parse prefix dateOf now ''POST'' content w
           = (HttpBody duplicate_body, w)"
proof -
  have "Exists (w_files w) (Join prefix (Fqdn report))" using assms(2) by (rule Exists_Join)
  then show ?thesis
    using assms by (simp add: ReportSubmissionHandler_def ensure_dir_def Let_def)
qed

lemma handler_fresh:
  assumes "ReportSubmissionHandler fl parse prefix dateOf now ''POST'' content w = (HttpBody b, w1)"
    and "b \<noteq> duplicate_body"
  shows "\<exists>report f1 f2. parse content = Inr report
           \<and> ensure_dir (w_files w) (Join prefix (Fqdn report)) = (True, f1)
           \<and> WriteFile f1 (Join (Join prefix (Fqdn report)) (Hash report)) content = Some f2
           \<and> b = host_body (Fqdn report)
           \<and> w1 = \<lparr>w_files = f2,
                   w_db = snd (addDB fl dateOf now report (Join (Join [] (Fqdn report)) (Hash report))
                                 (w_db w))\<rparr>"
proof (cases "parse content")
  case (Inl msg)
  then show ?thesis using assms(1) by (simp add: ReportSubmissionHandler_def)
next
  case (Inr report)
  obtain ok f1 where e: "ensure_dir (w_files w) (Join prefix (Fqdn report)) = (ok, f1)"
    by (cases "ensure_dir (w_files w) (Join prefix (Fqdn report))") auto
  show ?thesis
  proof (cases ok)
    case False
    then show ?thesis using assms(1) Inr e by (simp add: ReportSubmissionHandler_def Let_def)
  next
    case True
    show ?thesis
    proof (cases "Exists f1 (Join (Join prefix (Fqdn report)) (Hash report))")
      case dup: True
      then show ?thesis
        using assms Inr e True by (simp add: ReportSubmissionHandler_def Let_def)
    next
      case fresh: False
      show ?thesis
      proof (cases "WriteFile f1 (Join (Join prefix (Fqdn report)) (Hash report)) content")
        case None
        then show ?thesis
          using assms(1) Inr e True fresh by (simp add: ReportSubmissionHandler_def Let_def)
      next
        case (Some f2)
        then show ?thesis
          using assms(1) Inr e True fresh
          by (auto simp: ReportSubmissionHandler_def Let_def)
      qed
    qed
  qed
qed

text \<open>
  Claim C3, as the code has it. When the artifact \<open>prefix/fqdn/hash\<close> of the parsed
  body exists, \<^verbatim>\<open>ReportSubmissionHandler\<close> answers with the duplicate message and
  changes nothing, neither files nor store. Its body differs from the body of a fresh
  ingestion for every fqdn. After a fresh answer the artifact exists, the store is what the
  one call of \<^verbatim>\<open>addDB\<close> left, and submitting the same body again, at any later time
  and whatever the engine refuses then, is such a duplicate: the state after both
  submissions is the state after the first. When the call of \<^verbatim>\<open>addDB\<close> in the first
  submission met no refusal and returned nil, that state has exactly the one new report
  row, the snapshot of the report on the host row of its fqdn, and the report counted once
  in the history: on the first bucket of the day, or on a new bucket when the day had
  none (bucket keys distinct, as a primary key is).
\<close>

theorem ReportSubmissionHandler_idempotent:
  "(\<forall>report. parse content = Inr report
       \<and> Exists (w_files w) (Join (Join prefix (Fqdn report)) (Hash report))
     \<longrightarrow> ReportSubmissionHandler fl parse prefix dateOf now ''POST'' content w
           = (HttpBody duplicate_body, w))
   \<and> (\<forall>fqdn. host_body fqdn \<noteq> duplicate_body)
   \<and> (\<forall>b w1. ReportSubmissionHandler fl parse prefix dateOf now ''POST'' content w = (HttpBody b, w1)
         \<and> b \<noteq> duplicate_body
       \<longrightarrow> (\<exists>report. parse content = Inr report
              \<and> b = host_body (Fqdn report)
              \<and> Exists (w_files w1) (Join (Join prefix (Fqdn report)) (Hash report))
              \<and> w_db w1 = snd (addDB fl dateOf now report (Join (Join [] (Fqdn report)) (Hash report))
                                 (w_db w))
              \<and> ReportSubmissionHandler fl2 parse prefix dateOf later ''POST'' content w1
                  = (HttpBody duplicate_body, w1)
              \<and> (\<forall>s. fl = no_faults \<and> w_db w = Some s
                      \<and> distinct (map hist_id (history s))
                      \<and> fst (addDB no_faults dateOf now report
                               (Join (Join [] (Fqdn report)) (Hash report)) (Some s)) = None
                    \<longrightarrow> (\<exists>hid s1. w_db w1 = Some s1
                           \<and> reports s1 = reports s @
                               [new_report (next_key (reports_seq s) (map report_id (reports s)))
                                  now report (Join (Join [] (Fqdn report)) (Hash report)) hid]
                           \<and> (\<exists>h \<in> set (hosts s1). host_fqdn h = Fqdn report \<and> host_id h = hid)
                           \<and> (\<forall>h \<in> set (hosts s1). host_id h = hid \<longrightarrow> snapshot_of now report h)
                           \<and> (dateOf now \<in> date ` set (history s)
                                \<longrightarrow> history s1 = count_first (dateOf now) (State report) (history s))
                           \<and> (dateOf now \<notin> date ` set (history s)
                                \<longrightarrow> (\<exists>k. k \<notin> hist_id ` set (history s)
                                      \<and> history s1 = history s @
                                          [count_state (State report)
                                             \<lparr>hist_id = k, date = dateOf now, failed = 0,
                                              changed = 0, unchanged = 0\<rparr>]))))))"
proof (intro conjI allI impI)
  fix report
  assume "parse content = Inr report
       \<and> Exists (w_files w) (Join (Join prefix (Fqdn report)) (Hash report))"
  then show "ReportSubmissionHandler fl parse prefix dateOf now ''POST'' content w
           = (HttpBody duplicate_body, w)"
    using handler_duplicate by blast
next
  fix fqdn show "host_body fqdn \<noteq> duplicate_body" using duplicate_not_host [of fqdn] by simp
next
  fix b w1
  assume a: "ReportSubmissionHandler fl parse prefix dateOf now ''POST'' content w = (HttpBody b, w1)
         \<and> b \<noteq> duplicate_body"
  then obtain report f1 f2 where p: "parse content = Inr report"
    and wr: "WriteFile f1 (Join (Join prefix (Fqdn report)) (Hash report)) content = Some f2"
    and b: "b = host_body (Fqdn report)"
    and w1: "w1 = \<lparr>w_files = f2,
                   w_db = snd (addDB fl dateOf now report (Join (Join [] (Fqdn report)) (Hash report))
                                 (w_db w))\<rparr>"
    using handler_fresh [of fl parse prefix dateOf now content w b w1] by blast
  let ?rel = "Join (Join [] (Fqdn report)) (Hash report)"
  have ep: "Exists f2 (Join (Join prefix (Fqdn report)) (Hash report))"
    using wr by (rule WriteFile_exists)
  have files: "w_files w1 = f2" using w1 by simp
  have db: "w_db w1 = snd (addDB fl dateOf now report ?rel (w_db w))" using w1 by simp
  have again: "ReportSubmissionHandler fl2 parse prefix dateOf later ''POST'' content w1
                  = (HttpBody duplicate_body, w1)"
    using p ep files by (intro handler_duplicate) simp_all
  have rec: "\<forall>s. fl = no_faults \<and> w_db w = Some s
                      \<and> distinct (map hist_id (history s))
                      \<and> fst (addDB no_faults dateOf now report ?rel (Some s)) = None
                    \<longrightarrow> (\<exists>hid s1. w_db w1 = Some s1
                           \<and> reports s1 = reports s @
                               [new_report (next_key (reports_seq s) (map report_id (reports s)))
                                  now report ?rel hid]
                           \<and> (\<exists>h \<in> set (hosts s1). host_fqdn h = Fqdn report \<and> host_id h = hid)
                           \<and> (\<forall>h \<in> set (hosts s1). host_id h = hid \<longrightarrow> snapshot_of now report h)
                           \<and> (dateOf now \<in> date ` set (history s)
                                \<longrightarrow> history s1 = count_first (dateOf now) (State report) (history s))
                           \<and> (dateOf now \<notin> date ` set (history s)
                                \<longrightarrow> (\<exists>k. k \<notin> hist_id ` set (history s)
                                      \<and> history s1 = history s @
                                          [count_state (State report)
                                             \<lparr>hist_id = k, date = dateOf now, failed = 0,
                                              changed = 0, unchanged = 0\<rparr>])))"
  proof (intro allI impI)
    fix s
    assume h: "fl = no_faults \<and> w_db w = Some s
                      \<and> distinct (map hist_id (history s))
                      \<and> fst (addDB no_faults dateOf now report ?rel (Some s)) = None"
    then have ok: "fst (addDB no_faults dateOf now report ?rel (Some s)) = None"
      and d: "distinct (map hist_id (history s))" by simp_all
    have "w_db w1 = snd (addDB no_faults dateOf now report ?rel (Some s))" using db h by simp
    then show "\<exists>hid s1. w_db w1 = Some s1
                           \<and> reports s1 = reports s @
                               [new_report (next_key (reports_seq s) (map report_id (reports s)))
                                  now report ?rel hid]
                           \<and> (\<exists>h \<in> set (hosts s1). host_fqdn h = Fqdn report \<and> host_id h = hid)
                           \<and> (\<forall>h \<in> set (hosts s1). host_id h = hid \<longrightarrow> snapshot_of now report h)
                           \<and> (dateOf now \<in> date ` set (history s)
                                \<longrightarrow> history s1 = count_first (dateOf now) (State report) (history s))
                           \<and> (dateOf now \<notin> date ` set (history s)
                                \<longrightarrow> (\<exists>k. k \<notin> hist_id ` set (history s)
                                      \<and> history s1 = history s @
                                          [count_state (State report)
                                             \<lparr>hist_id = k, date = dateOf now, failed = 0,
                                              changed = 0, unchanged = 0\<rparr>]))"
      using addDB_recorded [OF ok d] by simp
  qed
  show "\<exists>report. parse content = Inr report
              \<and> b = host_body (Fqdn report)
              \<and> Exists (w_files w1) (Join (Join prefix (Fqdn report)) (Hash report))
              \<and> w_db w1 = snd (addDB fl dateOf now report (Join (Join [] (Fqdn report)) (Hash report))
                                 (w_db w))
              \<and> ReportSubmissionHandler fl2 parse prefix dateOf later ''POST'' content w1
                  = (HttpBody duplicate_body, w1)
              \<and> (\<forall>s. fl = no_faults \<and> w_db w = Some s
                      \<and> distinct (map hist_id (history s))
                      \<and> fst (addDB no_faults dateOf now report
                               (Join (Join [] (Fqdn report)) (Hash report)) (Some s)) = None
                    \<longrightarrow> (\<exists>hid s1. w_db w1 = Some s1
                           \<and> reports s1 = reports s @
                               [new_report (next_key (reports_seq s) (map report_id (reports s)))
                                  now report (Join (Join [] (Fqdn report)) (Hash report)) hid]
                           \<and> (\<exists>h \<in> set (hosts s1). host_fqdn h = Fqdn report \<and> host_id h = hid)
                           \<and> (\<forall>h \<in> set (hosts s1). host_id h = hid \<longrightarrow> snapshot_of now report h)
                           \<and> (dateOf now \<in> date ` set (history s)
                                \<longrightarrow> history s1 = count_first (dateOf now) (State report) (history s))
                           \<and> (dateOf now \<notin> date ` set (history s)
                                \<longrightarrow> (\<exists>k. k \<notin> hist_id ` set (history s)
                                      \<and> history s1 = history s @
                                          [count_state (State report)
                                             \<lparr>hist_id = k, date = dateOf now, failed = 0,
                                              changed = 0, unchanged = 0\<rparr>]))))"
    using p b ep files db again rec by (intro exI [of _ report] conjI) simp_all
qed

text \<open>
  The same body posted twice on a store that never saw it, with no refusal: the second
  answer is the duplicate message, and the store holds the one report row, the snapshot
  and the one count. And a body posted while a file stands in the place of the report
  directory: \<^verbatim>\<open>os.Stat\<close> fails with \<^verbatim>\<open>ENOTDIR\<close>, which counts as existing.
\<close>

theorem ReportSubmissionHandler_idempotent_witness:
  "fst (ReportSubmissionHandler no_faults ex_parse [''reports''] ex_dateOf 1000 ''POST''
          ''report-A'' fresh_world)
     = HttpBody (host_body ''web01'')
   \<and> host_body ''web01'' \<noteq> duplicate_body
   \<and> ReportSubmissionHandler no_faults ex_parse [''reports''] ex_dateOf 2000 ''POST'' ''report-A''
        (snd (ReportSubmissionHandler no_faults ex_parse [''reports''] ex_dateOf 1000 ''POST''
                ''report-A'' fresh_world))
       = (HttpBody duplicate_body,
          snd (ReportSubmissionHandler no_faults ex_parse [''reports''] ex_dateOf 1000 ''POST''
                 ''report-A'' fresh_world))
   \<and> w_db fresh_world = Some empty_store
   \<and> distinct (map hist_id (history empty_store))
   \<and> fst (addDB no_faults ex_dateOf 1000 web01_report [''web01'', ''h1''] (Some empty_store)) = None
   \<and> reports (the (w_db (snd (ReportSubmissionHandler no_faults ex_parse [''reports'']
        ex_dateOf 1000 ''POST'' ''report-A'' fresh_world))))
       = [new_report 1 1000 web01_report [''web01'', ''h1''] 1]
   \<and> map host_state (hosts (the (w_db (snd (ReportSubmissionHandler no_faults ex_parse
        [''reports''] ex_dateOf 1000 ''POST'' ''report-A'' fresh_world))))) = [''changed'']
   \<and> history (the (w_db (snd (ReportSubmissionHandler no_faults ex_parse [''reports'']
        ex_dateOf 1000 ''POST'' ''report-A'' fresh_world))))
       = [ex_bucket 1 ''1970/01/01'' 0 1 0]
   \<and> Exists (w_files blocked_world) [''reports'', ''web01'', ''h1'']
   \<and> ReportSubmissionHandler no_faults ex_parse [''reports''] ex_dateOf 1000 ''POST''
        ''report-A'' blocked_world
       = (HttpBody duplicate_body, blocked_world)"
proof -
  let ?r1 = "ReportSubmissionHandler no_faults ex_parse [''reports''] ex_dateOf 1000 ''POST''
               ''report-A'' fresh_world"
  have a: "fst ?r1 = HttpBody (host_body ''web01'')" by code_simp
  have b: "host_body ''web01'' \<noteq> duplicate_body" by code_simp
  have c1: "reports (the (w_db (snd ?r1))) = [new_report 1 1000 web01_report [''web01'', ''h1''] 1]"
    by code_simp
  have c2: "map host_state (hosts (the (w_db (snd ?r1)))) = [''changed'']" by code_simp
  have c3: "history (the (w_db (snd ?r1))) = [ex_bucket 1 ''1970/01/01'' 0 1 0]" by code_simp
  have d1: "w_db fresh_world = Some empty_store" by (simp add: fresh_world_def)
  have d2: "distinct (map hist_id (history empty_store))" by (simp add: empty_store_def)
  have d3: "fst (addDB no_faults ex_dateOf 1000 web01_report [''web01'', ''h1'']
                   (Some empty_store)) = None" by code_simp
  have e1: "Exists (w_files blocked_world) [''reports'', ''web01'', ''h1'']" by code_simp
  have e2: "ex_parse ''report-A'' = Inr web01_report
            \<and> Exists (w_files blocked_world)
                (Join (Join [''reports''] (Fqdn web01_report)) (Hash web01_report))"
    by code_simp
  have run: "?r1 = (HttpBody (host_body ''web01''), snd ?r1)"
    using a by (simp add: prod_eq_iff)
  from ReportSubmissionHandler_idempotent
         [where parse = ex_parse and content = "''report-A''" and w = fresh_world
            and prefix = "[''reports'']" and dateOf = ex_dateOf and now = 1000 and later = 2000
            and fl = no_faults and ?fl2.0 = no_faults]
  have "\<forall>b w1. ?r1 = (HttpBody b, w1) \<and> b \<noteq> duplicate_body
       \<longrightarrow> ReportSubmissionHandler no_faults ex_parse [''reports''] ex_dateOf 2000 ''POST''
              ''report-A'' w1
                  = (HttpBody duplicate_body, w1)"
    by blast
  with run b
  have twice: "ReportSubmissionHandler no_faults ex_parse [''reports''] ex_dateOf 2000 ''POST''
                 ''report-A'' (snd ?r1)
          = (HttpBody duplicate_body, snd ?r1)"
    by blast
  from ReportSubmissionHandler_idempotent
         [where parse = ex_parse and content = "''report-A''" and w = blocked_world
            and prefix = "[''reports'']" and dateOf = ex_dateOf and now = 1000
            and fl = no_faults] e2
  have blocked: "ReportSubmissionHandler no_faults ex_parse [''reports''] ex_dateOf 1000 ''POST''
        ''report-A'' blocked_world
       = (HttpBody duplicate_body, blocked_world)"
    by blast
  show ?thesis using a b twice d1 d2 d3 c1 c2 c3 e1 blocked by blast
qed

text \<open>
  Claim C3 as stated fails. The handler drops the result of \<^verbatim>\<open>addDB\<close>: when
  \<^verbatim>\<open>db.Begin\<close> is refused during the first submission, the answer is still the host
  body of a fresh ingestion, no report row and no history bucket are recorded and the host
  row of \<open>web01\<close> keeps its empty state, and the second submission of the same body is
  ignored as a duplicate, so no report row exists after both. The same happens on a server
  whose database was never opened.
\<close>

theorem ReportSubmissionHandler_counterexample:
  "fst (ReportSubmissionHandler begin_fault ex_parse [''reports''] ex_dateOf 1000 ''POST''
          ''report-A'' fresh_world)
     = HttpBody (host_body ''web01'')
   \<and> reports (the (w_db (snd (ReportSubmissionHandler begin_fault ex_parse [''reports'']
        ex_dateOf 1000 ''POST'' ''report-A'' fresh_world)))) = []
   \<and> history (the (w_db (snd (ReportSubmissionHandler begin_fault ex_parse [''reports'']
        ex_dateOf 1000 ''POST'' ''report-A'' fresh_world)))) = []
   \<and> map host_state (hosts (the (w_db (snd (ReportSubmissionHandler begin_fault ex_parse
        [''reports''] ex_dateOf 1000 ''POST'' ''report-A'' fresh_world))))) = [[]]
   \<and> ReportSubmissionHandler no_faults ex_parse [''reports''] ex_dateOf 2000 ''POST'' ''report-A''
        (snd (ReportSubmissionHandler begin_fault ex_parse [''reports''] ex_dateOf 1000 ''POST''
                ''report-A'' fresh_world))
       = (HttpBody duplicate_body,
          snd (ReportSubmissionHandler begin_fault ex_parse [''reports''] ex_dateOf 1000 ''POST''
                 ''report-A'' fresh_world))
   \<and> fst (ReportSubmissionHandler no_faults ex_parse [''reports''] ex_dateOf 1000 ''POST''
            ''report-A'' closed_world)
       = HttpBody (host_body ''web01'')
   \<and> w_db (snd (ReportSubmissionHandler no_faults ex_parse [''reports''] ex_dateOf 1000 ''POST''
                  ''report-A'' closed_world)) = None
   \<and> ReportSubmissionHandler no_faults ex_parse [''reports''] ex_dateOf 2000 ''POST'' ''report-A''
        (snd (ReportSubmissionHandler no_faults ex_parse [''reports''] ex_dateOf 1000 ''POST''
                ''report-A'' closed_world))
       = (HttpBody duplicate_body,
          snd (ReportSubmissionHandler no_faults ex_parse [''reports''] ex_dateOf 1000 ''POST''
                 ''report-A'' closed_world))"
  by code_simp

subsection \<open>Staged files of asynchronous submissions\<close>

text \<open>
  The early returns of \<^verbatim>\<open>AsyncReportSubmissionSaver\<close>, for every state: bytes that do
  not parse, and a report whose artifact exists, leave the state as it is.
\<close>

lemma Saver_parse_failure:
  assumes "ReadFile (w_files w) (staged_path uuid) = Some content" and "parse content = Inl msg"
  shows "AsyncReportSubmissionSaver fl parse prefix dateOf now uuid w
           = (''Failed to parse Yaml'', w)"
  using assms by (simp add: AsyncReportSubmissionSaver_def)

lemma Saver_duplicate:
  assumes "ReadFile (w_files w) (staged_path uuid) = Some content"
    and "parse content = Inr report"
    and "Exists (w_files w) (Join (Join prefix (Fqdn report)) (Hash report))"
  shows "AsyncReportSubmissionSaver fl parse prefix dateOf now uuid w
           = (''Ignoring duplicate submission'', w)"
proof -
  have "Exists (w_files w) (Join prefix (Fqdn report))" using assms(3) by (rule Exists_Join)
  then show ?thesis
    using assms by (simp add: AsyncReportSubmissionSaver_def ensure_dir_def Let_def)
qed

lemma ReadFile_Exists: "ReadFile f p = Some content \<Longrightarrow> Exists f p"
  by (auto simp: ReadFile_def Exists_def split: stat_result.splits node.splits)

text \<open>
  Claim C2 on three staged jobs. The job whose bytes do not parse and the job whose
  artifact is already stored both end with the state they started from, so the staged
  file is still there: the function returns before it reaches \<^verbatim>\<open>os.Remove\<close>. Only the
  job that is recorded has its staged file removed.
\<close>

theorem AsyncReportSubmissionSaver_keeps_staged_file:
  "AsyncReportSubmissionSaver no_faults ex_parse [''reports''] ex_dateOf 1000 ''job1'' garbage_world
     = (''Failed to parse Yaml'', garbage_world)
   \<and> Exists (w_files garbage_world) (staged_path ''job1'')
   \<and> AsyncReportSubmissionSaver no_faults ex_parse [''reports''] ex_dateOf 1000 ''job2''
        duplicate_world
       = (''Ignoring duplicate submission'', duplicate_world)
   \<and> Exists (w_files duplicate_world) (staged_path ''job2'')
   \<and> fst (AsyncReportSubmissionSaver no_faults ex_parse [''reports''] ex_dateOf 1000 ''job2''
            fresh_world) = []
   \<and> \<not> Exists (w_files (snd (AsyncReportSubmissionSaver no_faults ex_parse [''reports'']
                                 ex_dateOf 1000 ''job2'' fresh_world))) (staged_path ''job2'')
   \<and> Exists (w_files (AsyncReportSubmissionWorker no_faults ex_parse [''reports''] ex_dateOf
                          [(1000, ''job1'')] garbage_world)) (staged_path ''job1'')"
  by code_simp

end
